theory Spec2Isabelle
  imports Main "HOL-Library.AList"
begin

section \<open>Values exchanged with the backend\<close>

text \<open>
  The syncers of \<^verbatim>\<open>bot/exts/backend/sync/_syncers.py\<close> talk to the site API in decoded
  JSON. A decoded JSON value is a Python \<^verbatim>\<open>None\<close>, \<^verbatim>\<open>bool\<close>, \<^verbatim>\<open>int\<close>, \<^verbatim>\<open>float\<close>,
  \<^verbatim>\<open>str\<close>, \<^verbatim>\<open>list\<close> or \<^verbatim>\<open>dict\<close>; a dict keeps its keys in insertion order, so it
  is an association list. The syncers print a \<^verbatim>\<open>float\<close> and test its truth value and
  do nothing else with it, so a \<^verbatim>\<open>float\<close> is kept as the text Python prints for it
  (\<^verbatim>\<open>1.5\<close>, \<^verbatim>\<open>1e+100\<close>, \<^verbatim>\<open>nan\<close>). A Python \<^verbatim>\<open>str\<close> is modelled by its UTF-8
  bytes.
\<close>

datatype json =
    JNull
  | JBool bool
  | JInt int
  | JFloat string
  | JStr string
  | JList "json list"
  | JDict "(string \<times> json) list"

type_synonym dict = "(string \<times> json) list"

text \<open>Python's truth value of a decoded JSON value, as \<^verbatim>\<open>if x\<close> and \<^verbatim>\<open>x or y\<close> read it.\<close>

fun truthy :: "json \<Rightarrow> bool" where
  "truthy JNull = False"
| "truthy (JBool b) = b"
| "truthy (JInt i) = (i \<noteq> 0)"
| "truthy (JFloat f) = (f \<noteq> ''0.0'' \<and> f \<noteq> ''-0.0'')"
| "truthy (JStr s) = (s \<noteq> [])"
| "truthy (JList xs) = (xs \<noteq> [])"
| "truthy (JDict kvs) = (kvs \<noteq> [])"

subsection \<open>Python's \<^verbatim>\<open>str\<close> of integers and of decoded JSON\<close>

definition digit :: "nat \<Rightarrow> char" where
  "digit n = ''0123456789abcdef'' ! (n mod 16)"

function str_nat :: "nat \<Rightarrow> string" where
  "str_nat n = (if n < 10 then [digit n] else str_nat (n div 10) @ [digit (n mod 10)])"
  by pat_completeness auto
termination
  by (relation "measure (\<lambda>n. n)") auto

declare str_nat.simps [simp del]

definition str_int :: "int \<Rightarrow> string" where
  "str_int i = (if i < 0 then CHR ''-'' # str_nat (nat (- i)) else str_nat (nat i))"

text \<open>
  \<^verbatim>\<open>repr\<close> of a \<^verbatim>\<open>str\<close> asks the Unicode database which characters are printable. It
  is a parameter \<open>rs\<close> of everything that prints a decoded JSON value, and the properties
  below hold for every \<open>rs\<close>.
\<close>

fun join :: "string \<Rightarrow> string list \<Rightarrow> string" where
  "join sep [] = []"
| "join sep [x] = x"
| "join sep (x # y # ys) = x @ sep @ join sep (y # ys)"

fun repr :: "(string \<Rightarrow> string) \<Rightarrow> json \<Rightarrow> string" where
  "repr rs JNull = ''None''"
| "repr rs (JBool b) = (if b then ''True'' else ''False'')"
| "repr rs (JInt i) = str_int i"
| "repr rs (JFloat f) = f"
| "repr rs (JStr s) = rs s"
| "repr rs (JList xs) = ''['' @ join '', '' (map (repr rs) xs) @ '']''"
| "repr rs (JDict kvs) =
     ''{'' @ join '', '' (map (\<lambda>kv. rs (fst kv) @ '': '' @ repr rs (snd kv)) kvs) @ ''}''"

text \<open>\<^verbatim>\<open>str(x)\<close>, which an f-string applies: a \<^verbatim>\<open>str\<close> is itself, all else is its \<^verbatim>\<open>repr\<close>.\<close>

fun str :: "(string \<Rightarrow> string) \<Rightarrow> json \<Rightarrow> string" where
  "str rs (JStr s) = s"
| "str rs j = repr rs j"

section \<open>The API client and the progress message\<close>

text \<open>
  Modelled from the spec: \<^verbatim>\<open>bot.api.ResponseCodeError\<close>, whose class is not among the
  sources. The specification gives the error the shape
  \<^verbatim>\<open>{status: int, responseBody: json|null}\<close>, and \<^verbatim>\<open>sync\<close> reads \<^verbatim>\<open>e.status\<close> and
  \<^verbatim>\<open>e.response_json\<close>: an error without a body has \<^const>\<open>JNull\<close> there. Every other
  exception (a connection fault, a response of the wrong shape, a \<^verbatim>\<open>TypeError\<close>, an
  exception of discord.py) is \<open>Unclassified\<close>.
\<close>

datatype error =
    ResponseCodeError (status: int) (response_json: json)
  | Unclassified string

record Role =
  role_id :: int
  role_name :: string
  colour :: int
  permissions :: int
  position :: int

text \<open>A user as the site stores it: one element of \<^verbatim>\<open>res["results"]\<close>.\<close>

record User =
  user_id :: int
  user_name :: string
  user_discriminator :: int
  user_roles :: "int list"
  in_guild :: bool

datatype verb = GET | POST | PUT | PATCH | DELETE

text \<open>A request: the verb, the URL, the \<^verbatim>\<open>params\<close> and the \<^verbatim>\<open>json\<close> payload.\<close>

datatype request = Request verb string json json

datatype response =
    RolesResponse "Role list"
  | UsersPage (results: "User list") (next_page_no: "int option")
  | Done

text \<open>
  The site is any deterministic backend: its answer to a request is a function of the
  requests it has received before in this run, and of the request.
\<close>

type_synonym api_client = "request list \<Rightarrow> request \<Rightarrow> error + response"

text \<open>
  The state a run changes: the requests sent to the site so far, and the texts of the
  messages in the channel of \<^verbatim>\<open>ctx\<close> (a message handle is its index).
\<close>

record world =
  calls :: "request list"
  messages :: "string list"

type_synonym 'a result = "(error + 'a) \<times> world"

definition call :: "api_client \<Rightarrow> request \<Rightarrow> world \<Rightarrow> response result" where
  "call api req w = (api (calls w) req, w\<lparr>calls := calls w @ [req]\<rparr>)"

text \<open>
  \<^verbatim>\<open>ctx.send\<close> and \<^verbatim>\<open>message.edit\<close> are requests to Discord. Discord accepts a request
  or the call raises (no permission to write, the message was deleted, the text is too
  long): a context is what decides this, from the state and the request. The exception
  is one of discord.py, not a \<^verbatim>\<open>ResponseCodeError\<close>.
\<close>

datatype sink_request = Send string | Edit nat string

datatype Context = Context (raises: "world \<Rightarrow> sink_request \<Rightarrow> string option")

definition send :: "Context \<Rightarrow> string \<Rightarrow> world \<Rightarrow> nat result" where
  "send ctx text w =
     (case raises ctx w (Send text) of
        Some x \<Rightarrow> (Inl (Unclassified x), w)
      | None \<Rightarrow> (Inr (length (messages w)), w\<lparr>messages := messages w @ [text]\<rparr>))"

definition edit :: "Context \<Rightarrow> nat \<Rightarrow> string \<Rightarrow> world \<Rightarrow> unit result" where
  "edit ctx h text w =
     (case raises ctx w (Edit h text) of
        Some x \<Rightarrow> (Inl (Unclassified x), w)
      | None \<Rightarrow> (Inr (), w\<lparr>messages := (messages w)[h := text]\<rparr>))"

section \<open>The guild cache\<close>

text \<open>
  What the syncers read of \<^verbatim>\<open>discord.Guild\<close>. A role of the cache is kept as the five
  values \<^verbatim>\<open>_get_diff\<close> reads of it (\<^verbatim>\<open>colour.value\<close> and \<^verbatim>\<open>permissions.value\<close>
  for the colour and the permissions), a member's discriminator as the number
  \<^verbatim>\<open>int(member.discriminator)\<close>. \<^verbatim>\<open>guild.get_member(id)\<close> is the member of the cache
  with that id, or \<^verbatim>\<open>None\<close>.
\<close>

record Member =
  member_id :: int
  member_name :: string
  member_discriminator :: int
  member_roles :: "Role list"

record Guild =
  roles :: "Role list"
  members :: "Member list"

definition get_member :: "Guild \<Rightarrow> int \<Rightarrow> Member option" where
  "get_member guild i = find (\<lambda>m. member_id m = i) (members guild)"

section \<open>Syncer\<close>

text \<open>
  \<^verbatim>\<open>_Diff = namedtuple('Diff', ('created', 'updated', 'deleted'))\<close>. A field is a
  collection or \<^verbatim>\<open>None\<close>. The roles' collections are sets of \<^verbatim>\<open>_Role\<close>, the users'
  are lists of dicts.
\<close>

record 'a Diff =
  created :: "'a option"
  updated :: "'a option"
  deleted :: "'a option"

definition asdict :: "'a Diff \<Rightarrow> (string \<times> 'a option) list" where
  "asdict diff =
     [(''created'', created diff), (''updated'', updated diff), (''deleted'', deleted diff)]"

text \<open>
  A syncer is its \<^verbatim>\<open>name\<close> and its two abstract methods; \<open>len\<close> is Python's \<^verbatim>\<open>len\<close>
  on the collections of its diff. \<^verbatim>\<open>_get_diff\<close> may wait for the site for ever, so
  its result is an option.
\<close>

record 'a Syncer =
  name :: string
  get_diff :: "api_client \<Rightarrow> Guild \<Rightarrow> world \<Rightarrow> 'a Diff result option"
  sync_diff :: "api_client \<Rightarrow> 'a Diff \<Rightarrow> world \<Rightarrow> unit result"
  len :: "'a \<Rightarrow> nat"

text \<open>The chart emoji U+1F4CA that opens the first message, in UTF-8.\<close>

definition bar_chart :: string where
  "bar_chart = [CHR 0xF0, CHR 0x9F, CHR 0x93, CHR 0x8A]"

definition start_text :: "string \<Rightarrow> string" where
  "start_text nm = bar_chart @ '' Synchronising '' @ nm @ ''s.''"

text \<open>Lines 62 and 63: the text after a \<^verbatim>\<open>ResponseCodeError\<close> with status \<open>st\<close> and body \<open>js\<close>.\<close>

definition failure_results :: "(string \<Rightarrow> string) \<Rightarrow> int \<Rightarrow> json \<Rightarrow> string" where
  "failure_results rs st js =
     ''status '' @ str_int st @ [CHR 0x0A] @ ''```''
       @ (if truthy js then str rs js else ''See log output for details'') @ ''```''"

definition failure_content :: "(string \<Rightarrow> string) \<Rightarrow> string \<Rightarrow> int \<Rightarrow> json \<Rightarrow> string" where
  "failure_content rs nm st js =
     '':x: Synchronisation of '' @ nm @ ''s failed: '' @ failure_results rs st js"

text \<open>Lines 65 to 70: one term for each field of the diff that is not \<^verbatim>\<open>None\<close>.\<close>

definition result_terms :: "('a \<Rightarrow> nat) \<Rightarrow> 'a Diff \<Rightarrow> string list" where
  "result_terms ln diff =
     concat (map (\<lambda>(nm, val). case val of
                     None \<Rightarrow> []
                   | Some v \<Rightarrow> [nm @ '' `'' @ str_nat (ln v) @ ''`''])
                 (asdict diff))"

definition success_content :: "string \<Rightarrow> ('a \<Rightarrow> nat) \<Rightarrow> 'a Diff \<Rightarrow> string" where
  "success_content nm ln diff =
     '':ok_hand: Synchronisation of '' @ nm @ ''s complete: ''
       @ join '', '' (result_terms ln diff)"

text \<open>
  Lines 50 to 53: the message \<^verbatim>\<open>ctx.send\<close> returns, or \<^verbatim>\<open>None\<close>. A message knows the
  context it was sent in.
\<close>

definition start :: "Context option \<Rightarrow> string \<Rightarrow> world \<Rightarrow> (Context \<times> nat) option result" where
  "start ctx nm w =
     (case ctx of
        Some c \<Rightarrow>
          (case send c (start_text nm) w of
             (Inl e, w1) \<Rightarrow> (Inl e, w1)
           | (Inr h, w1) \<Rightarrow> (Inr (Some (c, h)), w1))
      | None \<Rightarrow> (Inr None, w))"

text \<open>Lines 72 and 73.\<close>

definition finish :: "(Context \<times> nat) option \<Rightarrow> string \<Rightarrow> world \<Rightarrow> unit result" where
  "finish message content w =
     (case message of Some (c, h) \<Rightarrow> edit c h content w | None \<Rightarrow> (Inr (), w))"

text \<open>
  \<^verbatim>\<open>Syncer.sync\<close>. The calls of \<^verbatim>\<open>ctx.send\<close>, of \<^verbatim>\<open>_get_diff\<close> and of
  \<^verbatim>\<open>message.edit\<close> stand outside the \<^verbatim>\<open>try\<close>: what they raise leaves \<^verbatim>\<open>sync\<close>. Of
  what \<^verbatim>\<open>_sync\<close> raises, the \<^verbatim>\<open>except\<close> clause takes \<^verbatim>\<open>ResponseCodeError\<close> only. The
  calls of \<^verbatim>\<open>log\<close> are left out.
\<close>

definition Syncer_sync ::
  "(string \<Rightarrow> string) \<Rightarrow> 'a Syncer \<Rightarrow> api_client \<Rightarrow> Guild \<Rightarrow> Context option \<Rightarrow> world
     \<Rightarrow> unit result option" where
  "Syncer_sync rs self api guild ctx w =
     (case start ctx (name self) w of
        (Inl e, w1) \<Rightarrow> Some (Inl e, w1)
      | (Inr message, w1) \<Rightarrow>
          (case get_diff self api guild w1 of
             None \<Rightarrow> None
           | Some (Inl e, w2) \<Rightarrow> Some (Inl e, w2)
           | Some (Inr diff, w2) \<Rightarrow>
               (case sync_diff self api diff w2 of
                  (Inl (ResponseCodeError st js), w3) \<Rightarrow>
                    Some (finish message (failure_content rs (name self) st js) w3)
                | (Inl (Unclassified x), w3) \<Rightarrow> Some (Inl (Unclassified x), w3)
                | (Inr u, w3) \<Rightarrow>
                    Some (finish message (success_content (name self) (len self) diff) w3))))"

section \<open>RoleSyncer\<close>

text \<open>
  \<^verbatim>\<open>RoleSyncer._get_diff\<close>. A response to \<^verbatim>\<open>GET bot/roles\<close> that is not a list of
  roles makes \<^verbatim>\<open>_Role(**role_dict)\<close> raise.
\<close>

definition RoleSyncer_get_diff ::
  "api_client \<Rightarrow> Guild \<Rightarrow> world \<Rightarrow> Role set Diff result option" where
  "RoleSyncer_get_diff api guild w =
     (case call api (Request GET ''bot/roles'' JNull JNull) w of
        (Inl e, w') \<Rightarrow> Some (Inl e, w')
      | (Inr (RolesResponse rs), w') \<Rightarrow>
          (let db_roles = set rs;
               guild_roles = set (roles guild);
               guild_role_ids = role_id ` guild_roles;
               api_role_ids = role_id ` db_roles;
               new_role_ids = guild_role_ids - api_role_ids;
               deleted_role_ids = api_role_ids - guild_role_ids;
               roles_to_create = {role \<in> guild_roles. role_id role \<in> new_role_ids};
               roles_to_update = guild_roles - db_roles - roles_to_create;
               roles_to_delete = {role \<in> db_roles. role_id role \<in> deleted_role_ids}
           in Some (Inr \<lparr>created = Some roles_to_create, updated = Some roles_to_update,
                         deleted = Some roles_to_delete\<rparr>, w'))
      | (Inr other, w') \<Rightarrow> Some (Inl (Unclassified ''TypeError''), w'))"

text \<open>\<^verbatim>\<open>role._asdict()\<close>\<close>

definition role_asdict :: "Role \<Rightarrow> json" where
  "role_asdict role =
     JDict [(''id'', JInt (role_id role)), (''name'', JStr (role_name role)),
            (''colour'', JInt (colour role)), (''permissions'', JInt (permissions role)),
            (''position'', JInt (position role))]"

text \<open>A \<^verbatim>\<open>for\<close> loop whose body awaits one call: the first exception ends it.\<close>

fun for_each :: "api_client \<Rightarrow> ('x \<Rightarrow> request) \<Rightarrow> 'x list \<Rightarrow> world \<Rightarrow> unit result" where
  "for_each api mk [] w = (Inr (), w)"
| "for_each api mk (x # xs) w =
     (case call api (mk x) w of
        (Inl e, w') \<Rightarrow> (Inl e, w')
      | (Inr r, w') \<Rightarrow> for_each api mk xs w')"

definition post_role :: "Role \<Rightarrow> request" where
  "post_role role = Request POST ''bot/roles'' JNull (role_asdict role)"

definition put_role :: "Role \<Rightarrow> request" where
  "put_role role = Request PUT (''bot/roles/'' @ str_int (role_id role)) JNull (role_asdict role)"

definition delete_role :: "Role \<Rightarrow> request" where
  "delete_role role = Request DELETE (''bot/roles/'' @ str_int (role_id role)) JNull JNull"

text \<open>
  \<^verbatim>\<open>RoleSyncer._sync\<close>. Python does not fix the order in which a \<^verbatim>\<open>for\<close> loop visits a
  set: \<open>iter\<close> is that order, the list of the elements of a set as the loop meets them.
  A field that is \<^verbatim>\<open>None\<close> cannot be iterated.
\<close>

definition iterate ::
  "('x set \<Rightarrow> 'x list) \<Rightarrow> api_client \<Rightarrow> ('x \<Rightarrow> request) \<Rightarrow> 'x set option \<Rightarrow> world \<Rightarrow> unit result" where
  "iterate iter api mk field w =
     (case field of
        None \<Rightarrow> (Inl (Unclassified ''TypeError''), w)
      | Some s \<Rightarrow> for_each api mk (iter s) w)"

definition RoleSyncer_sync ::
  "(Role set \<Rightarrow> Role list) \<Rightarrow> api_client \<Rightarrow> Role set Diff \<Rightarrow> world \<Rightarrow> unit result" where
  "RoleSyncer_sync iter api diff w =
     (case iterate iter api post_role (created diff) w of
        (Inl e, w1) \<Rightarrow> (Inl e, w1)
      | (Inr u1, w1) \<Rightarrow>
          (case iterate iter api put_role (updated diff) w1 of
             (Inl e, w2) \<Rightarrow> (Inl e, w2)
           | (Inr u2, w2) \<Rightarrow> iterate iter api delete_role (deleted diff) w2))"

definition RoleSyncer :: "(Role set \<Rightarrow> Role list) \<Rightarrow> Role set Syncer" where
  "RoleSyncer iter =
     \<lparr>name = ''role'', get_diff = RoleSyncer_get_diff, sync_diff = RoleSyncer_sync iter,
      len = card\<rparr>"

section \<open>UserSyncer\<close>

text \<open>
  \<^verbatim>\<open>UserSyncer._get_users\<close>. The loop runs while \<^verbatim>\<open>query_params["page"]\<close> is true,
  which \<^verbatim>\<open>None\<close> and \<open>0\<close> are not. It may run for ever: the result \<open>None\<close> is a loop
  that does not end. The generator hands its users to \<^verbatim>\<open>_get_diff\<close> one at a time
  and \<^verbatim>\<open>_get_diff\<close> sends nothing to the site between them, so the model collects them
  in \<open>acc\<close>; an exception of a later page discards them, as it discards what
  \<^verbatim>\<open>_get_diff\<close> had computed from them.
\<close>

definition page_true :: "int option \<Rightarrow> bool" where
  "page_true page = (case page of None \<Rightarrow> False | Some n \<Rightarrow> n \<noteq> 0)"

definition get_page :: "int option \<Rightarrow> request" where
  "get_page page =
     Request GET ''bot/users''
       (JDict [(''page'', case page of None \<Rightarrow> JNull | Some n \<Rightarrow> JInt n)]) JNull"

partial_function (option) get_users_from ::
  "api_client \<Rightarrow> int option \<Rightarrow> User list \<Rightarrow> world \<Rightarrow> User list result option" where
  "get_users_from api page acc w =
     (if page_true page then
        (case call api (get_page page) w of
           (Inl e, w') \<Rightarrow> Some (Inl e, w')
         | (Inr (UsersPage res nxt), w') \<Rightarrow> get_users_from api nxt (acc @ res) w'
         | (Inr other, w') \<Rightarrow> Some (Inl (Unclassified ''TypeError''), w'))
      else Some (Inr acc, w))"

declare get_users_from.simps [code]

definition UserSyncer_get_users :: "api_client \<Rightarrow> world \<Rightarrow> User list result option" where
  "UserSyncer_get_users api w = get_users_from api (Some 1) [] w"

text \<open>
  \<^verbatim>\<open>maybe_update\<close>, with \<open>db_value\<close> for \<^verbatim>\<open>db_user[db_field]\<close>. A dict entry is set by
  \<^const>\<open>AList.update\<close>: in place when the key is there, at the end when it is new.
\<close>

definition maybe_update :: "json \<Rightarrow> string \<Rightarrow> json \<Rightarrow> dict \<Rightarrow> dict" where
  "maybe_update db_value db_field guild_value updated_fields =
     (if db_value \<noteq> guild_value then AList.update db_field guild_value updated_fields
      else updated_fields)"

text \<open>Lines 143 to 167: the fields to update for one user of the site, and whom it met.\<close>

definition updated_fields_of :: "Guild \<Rightarrow> User \<Rightarrow> dict \<times> int set" where
  "updated_fields_of guild db_user =
     (case get_member guild (user_id db_user) of
        Some guild_user \<Rightarrow>
          (let fields1 = maybe_update (JStr (user_name db_user)) ''name''
                           (JStr (member_name guild_user)) [];
               fields2 = maybe_update (JInt (user_discriminator db_user)) ''discriminator''
                           (JInt (member_discriminator guild_user)) fields1;
               fields3 = maybe_update (JBool (in_guild db_user)) ''in_guild'' (JBool True) fields2;
               guild_roles = map role_id (member_roles guild_user);
               fields4 = (if set (user_roles db_user) \<noteq> set guild_roles
                          then AList.update ''roles'' (JList (map JInt guild_roles)) fields3
                          else fields3)
           in (fields4, {member_id guild_user}))
      | None \<Rightarrow>
          (if in_guild db_user then (AList.update ''in_guild'' (JBool False) [], {})
           else ([], {})))"

text \<open>One turn of the loop of line 141, on \<^verbatim>\<open>users_to_update\<close> and \<^verbatim>\<open>seen_guild_users\<close>.\<close>

definition diff_step :: "Guild \<Rightarrow> User \<Rightarrow> dict list \<times> int set \<Rightarrow> dict list \<times> int set" where
  "diff_step guild db_user st =
     (let (users_to_update, seen_guild_users) = st;
          (updated_fields, met) = updated_fields_of guild db_user;
          seen = met \<union> seen_guild_users
      in if updated_fields \<noteq> []
         then (users_to_update @ [AList.update ''id'' (JInt (user_id db_user)) updated_fields],
               seen)
         else (users_to_update, seen))"

definition new_user :: "Member \<Rightarrow> dict" where
  "new_user member =
     [(''id'', JInt (member_id member)), (''name'', JStr (member_name member)),
      (''discriminator'', JInt (member_discriminator member)),
      (''roles'', JList (map (\<lambda>role. JInt (role_id role)) (member_roles member))),
      (''in_guild'', JBool True)]"

definition UserSyncer_get_diff ::
  "api_client \<Rightarrow> Guild \<Rightarrow> world \<Rightarrow> dict list Diff result option" where
  "UserSyncer_get_diff api guild w =
     (case UserSyncer_get_users api w of
        None \<Rightarrow> None
      | Some (Inl e, w') \<Rightarrow> Some (Inl e, w')
      | Some (Inr db_users, w') \<Rightarrow>
          (let (users_to_update, seen_guild_users) = fold (diff_step guild) db_users ([], {});
               users_to_create =
                 map new_user
                   [member \<leftarrow> members guild. member_id member \<notin> seen_guild_users]
           in Some (Inr \<lparr>created = Some users_to_create, updated = Some users_to_update,
                         deleted = None\<rparr>, w')))"

text \<open>
  \<^verbatim>\<open>UserSyncer._sync\<close>: \<^verbatim>\<open>if diff.created\<close> is false for \<^verbatim>\<open>None\<close> and for the empty
  list.
\<close>

definition list_true :: "'x list option \<Rightarrow> bool" where
  "list_true field = (case field of None \<Rightarrow> False | Some xs \<Rightarrow> xs \<noteq> [])"

definition payload :: "dict list option \<Rightarrow> json" where
  "payload field = (case field of None \<Rightarrow> JNull | Some ds \<Rightarrow> JList (map JDict ds))"

definition post_users :: "dict list option \<Rightarrow> request" where
  "post_users field = Request POST ''bot/users'' JNull (payload field)"

definition patch_users :: "dict list option \<Rightarrow> request" where
  "patch_users field = Request PATCH ''bot/users/bulk_patch'' JNull (payload field)"

definition call_if :: "bool \<Rightarrow> api_client \<Rightarrow> request \<Rightarrow> world \<Rightarrow> unit result" where
  "call_if b api req w =
     (if b then (case call api req w of (Inl e, w') \<Rightarrow> (Inl e, w') | (Inr r, w') \<Rightarrow> (Inr (), w'))
      else (Inr (), w))"

definition UserSyncer_sync :: "api_client \<Rightarrow> dict list Diff \<Rightarrow> world \<Rightarrow> unit result" where
  "UserSyncer_sync api diff w =
     (case call_if (list_true (created diff)) api (post_users (created diff)) w of
        (Inl e, w1) \<Rightarrow> (Inl e, w1)
      | (Inr u, w1) \<Rightarrow> call_if (list_true (updated diff)) api (patch_users (updated diff)) w1)"

definition UserSyncer :: "dict list Syncer" where
  "UserSyncer =
     \<lparr>name = ''user'', get_diff = UserSyncer_get_diff, sync_diff = UserSyncer_sync,
      len = length\<rparr>"

section \<open>A guild and a site to run the syncers on\<close>

definition role_a :: Role where
  "role_a = \<lparr>role_id = 1, role_name = ''admin'', colour = 255, permissions = 8, position = 3\<rparr>"

definition role_b :: Role where
  "role_b = \<lparr>role_id = 2, role_name = ''helper'', colour = 0, permissions = 4, position = 2\<rparr>"

definition role_b_old :: Role where
  "role_b_old = \<lparr>role_id = 2, role_name = ''helpers'', colour = 0, permissions = 4, position = 2\<rparr>"

definition role_c :: Role where
  "role_c = \<lparr>role_id = 3, role_name = ''muted'', colour = 0, permissions = 0, position = 1\<rparr>"

definition role_d :: Role where
  "role_d = \<lparr>role_id = 4, role_name = ''member'', colour = 7, permissions = 1, position = 0\<rparr>"

text \<open>One order in which a loop can visit the sets of these roles.\<close>

definition iter_roles :: "Role set \<Rightarrow> Role list" where
  "iter_roles s = filter (\<lambda>r. r \<in> s) [role_a, role_b, role_b_old, role_c, role_d]"

definition member_1 :: Member where
  "member_1 = \<lparr>member_id = 1, member_name = ''ada'', member_discriminator = 1,
               member_roles = [role_a]\<rparr>"

definition member_9 :: Member where
  "member_9 = \<lparr>member_id = 9, member_name = ''new'', member_discriminator = 9,
               member_roles = [role_b]\<rparr>"

definition the_guild :: Guild where
  "the_guild = \<lparr>roles = [role_a, role_b, role_d], members = [member_1, member_9]\<rparr>"

text \<open>A guild that has a role for every id of the site: nothing is to delete.\<close>

definition guild_all :: Guild where
  "guild_all = \<lparr>roles = [role_a, role_b, role_c, role_d], members = [member_1, member_9]\<rparr>"

definition user_1 :: User where
  "user_1 = \<lparr>user_id = 1, user_name = ''ada_old'', user_discriminator = 1, user_roles = [1],
             in_guild = True\<rparr>"

definition user_2 :: User where
  "user_2 = \<lparr>user_id = 2, user_name = ''bob'', user_discriminator = 2, user_roles = [],
             in_guild = True\<rparr>"

definition user_3 :: User where
  "user_3 = \<lparr>user_id = 3, user_name = ''cy'', user_discriminator = 3, user_roles = [],
             in_guild = False\<rparr>"

text \<open>
  A site that holds the roles \<^const>\<open>role_b_old\<close>, \<^const>\<open>role_c\<close> and \<^const>\<open>role_d\<close> and
  three users on two pages. It answers every other request, the writes, with \<open>Done\<close>,
  or by raising \<open>write_error\<close> when there is one.
\<close>

definition site :: "error option \<Rightarrow> api_client" where
  "site write_error hist req =
     (if req = Request GET ''bot/roles'' JNull JNull
        then Inr (RolesResponse [role_b_old, role_c, role_d])
      else if req = get_page (Some 1) then Inr (UsersPage [user_1, user_2] (Some 2))
      else if req = get_page (Some 2) then Inr (UsersPage [user_3] None)
      else (case write_error of None \<Rightarrow> Inr Done | Some e \<Rightarrow> Inl e))"


text \<open>
  For the runs below, \<^verbatim>\<open>repr\<close> of a \<^verbatim>\<open>str\<close> on the texts of ASCII characters, the only
  ones the runs print: double quotes when the text has a single quote and no double
  quote, single quotes otherwise; the backslash, the chosen quote and the control
  characters are escaped.
\<close>

definition escape_char :: "char \<Rightarrow> char \<Rightarrow> string" where
  "escape_char q c =
     (if c = CHR 0x5C then [CHR 0x5C, CHR 0x5C]
      else if c = q then [CHR 0x5C, q]
      else if c = CHR 0x0A then [CHR 0x5C, CHR ''n'']
      else if c = CHR 0x0D then [CHR 0x5C, CHR ''r'']
      else if c = CHR 0x09 then [CHR 0x5C, CHR ''t'']
      else if (of_char c :: nat) < 32 \<or> (of_char c :: nat) = 127
        then [CHR 0x5C, CHR ''x'', digit (of_char c div 16), digit (of_char c mod 16)]
      else [c])"

definition repr_ascii :: "string \<Rightarrow> string" where
  "repr_ascii s =
     (let q = (if CHR 0x27 \<in> set s \<and> CHR 0x22 \<notin> set s then CHR 0x22 else CHR 0x27)
      in q # concat (map (escape_char q) s) @ [q])"

definition no_calls :: world where
  "no_calls = \<lparr>calls = [], messages = []\<rparr>"

text \<open>
  Three contexts: Discord accepts everything; it refuses to send; it sends and refuses
  to edit.
\<close>

definition reliable :: Context where
  "reliable = Context (\<lambda>w req. None)"

definition no_send :: Context where
  "no_send = Context (\<lambda>w req. case req of Send t \<Rightarrow> Some ''Forbidden'' | Edit h t \<Rightarrow> None)"

definition no_edit :: Context where
  "no_edit = Context (\<lambda>w req. case req of Send t \<Rightarrow> None | Edit h t \<Rightarrow> Some ''NotFound'')"

section \<open>Notions the statements use\<close>

text \<open>
  What \<^verbatim>\<open>ctx.send\<close> raises at line 51, if it raises, and the state after lines 48 to 53
  when it does not: with a \<^verbatim>\<open>ctx\<close>, the channel has the first message.
\<close>

definition send_raises :: "Context option \<Rightarrow> string \<Rightarrow> world \<Rightarrow> string option" where
  "send_raises ctx nm w =
     (case ctx of None \<Rightarrow> None | Some c \<Rightarrow> raises c w (Send (start_text nm)))"

definition announced :: "Context option \<Rightarrow> string \<Rightarrow> world \<Rightarrow> world" where
  "announced ctx nm w =
     (case ctx of None \<Rightarrow> w | Some c \<Rightarrow> w\<lparr>messages := messages w @ [start_text nm]\<rparr>)"

text \<open>
  The message that lines 50 to 53 leave in \<^verbatim>\<open>message\<close> when \<^verbatim>\<open>ctx.send\<close> has not raised:
  none without a \<^verbatim>\<open>ctx\<close>, and with one the message after those of \<open>w\<close>.
\<close>

definition sent :: "Context option \<Rightarrow> world \<Rightarrow> (Context \<times> nat) option" where
  "sent ctx w = (case ctx of None \<Rightarrow> None | Some c \<Rightarrow> Some (c, length (messages w)))"

text \<open>
  What \<^verbatim>\<open>message.edit\<close> raises at line 73, if it raises, in a run that began in \<open>w\<close>,
  has composed \<open>content\<close> and is in the state \<open>w3\<close>. The message of the run is the one
  after the messages of \<open>w\<close>.
\<close>

definition edit_raises :: "Context option \<Rightarrow> world \<Rightarrow> string \<Rightarrow> world \<Rightarrow> string option" where
  "edit_raises ctx w content w3 =
     (case ctx of None \<Rightarrow> None | Some c \<Rightarrow> raises c w3 (Edit (length (messages w)) content))"

text \<open>
  A part of a run, from the state \<open>w\<close> to a result and a state, stops at the first
  request that raises: the requests it adds stand after those of \<open>w\<close>, it leaves the
  channel alone, and if the site raises \<open>e\<close> at one of the added requests, then this
  request is the last one and \<open>e\<close> is the result.
\<close>

definition stops :: "api_client \<Rightarrow> world \<Rightarrow> 'a result \<Rightarrow> bool" where
  "stops api w rw =
     (take (length (calls w)) (calls (snd rw)) = calls w
      \<and> length (calls w) \<le> length (calls (snd rw))
      \<and> messages (snd rw) = messages w
      \<and> (\<forall>i e. length (calls w) \<le> i \<and> i < length (calls (snd rw))
                 \<and> api (take i (calls (snd rw))) (calls (snd rw) ! i) = Inl e
               \<longrightarrow> Suc i = length (calls (snd rw)) \<and> fst rw = Inl e))"

text \<open>
  What one user of the site adds to \<^verbatim>\<open>users_to_update\<close>: nothing, or its fields to
  update with its id (lines 169 to 171).
\<close>

definition update_entries :: "Guild \<Rightarrow> User \<Rightarrow> dict list" where
  "update_entries guild db_user =
     (if fst (updated_fields_of guild db_user) \<noteq> []
      then [AList.update ''id'' (JInt (user_id db_user)) (fst (updated_fields_of guild db_user))]
      else [])"

text \<open>
  The site serves a sequence of pages to a client that has sent \<open>hist\<close> and asks for
  \<open>page\<close> next: it answers with the first page, whose \<^verbatim>\<open>next_page_no\<close> is the cursor
  of the second, and so on; every page but the last names a next page, the last one has
  \<^verbatim>\<open>None\<close> or \<open>0\<close> there. A page is its \<^verbatim>\<open>results\<close> and its \<^verbatim>\<open>next_page_no\<close>.
\<close>

fun serves :: "api_client \<Rightarrow> request list \<Rightarrow> int option \<Rightarrow> (User list \<times> int option) list \<Rightarrow> bool" where
  "serves api hist page [] = False"
| "serves api hist page [(res, nxt)] =
     (api hist (get_page page) = Inr (UsersPage res nxt) \<and> (nxt = None \<or> nxt = Some 0))"
| "serves api hist page ((res, nxt) # p # ps) =
     (api hist (get_page page) = Inr (UsersPage res nxt) \<and> nxt \<noteq> None \<and> nxt \<noteq> Some 0
      \<and> serves api (hist @ [get_page page]) nxt (p # ps))"

section \<open>Loops over a collection\<close>

text \<open>
  A loop sends the requests of a front part of its list, in the order of the list, and
  all of them when it ends without an exception. It leaves the channel alone.
\<close>

lemma for_each_calls:
  "for_each api mk xs w = (r, w') \<Longrightarrow>
     \<exists>k \<le> length xs. calls w' = calls w @ map mk (take k xs) \<and> messages w' = messages w \<and>
       (r = Inr () \<longrightarrow> k = length xs)"
proof (induction xs arbitrary: w)
  case Nil
  then show ?case by auto
next
  case (Cons x xs)
  show ?case
  proof (cases "api (calls w) (mk x)")
    case (Inl e)
    with Cons.prems have "w' = w\<lparr>calls := calls w @ [mk x]\<rparr>" "r = Inl e"
      by (auto simp: call_def)
    then show ?thesis by (intro exI[of _ 1]) auto
  next
    case (Inr v)
    with Cons.prems have "for_each api mk xs (w\<lparr>calls := calls w @ [mk x]\<rparr>) = (r, w')"
      by (simp add: call_def)
    from Cons.IH[OF this] obtain k where k: "k \<le> length xs"
      "calls w' = calls w @ [mk x] @ map mk (take k xs)" "messages w' = messages w"
      "r = Inr () \<longrightarrow> k = length xs" by auto
    then show ?thesis by (intro exI[of _ "Suc k"]) auto
  qed
qed

text \<open>When a loop raises, the request that raised is the last one sent.\<close>

lemma for_each_raises:
  "for_each api mk xs w = (Inl e, w') \<Longrightarrow>
     calls w' \<noteq> calls w \<and> calls w' \<noteq> [] \<and> api (butlast (calls w')) (last (calls w')) = Inl e"
proof (induction xs arbitrary: w)
  case Nil
  then show ?case by auto
next
  case (Cons x xs)
  show ?case
  proof (cases "api (calls w) (mk x)")
    case (Inl e')
    with Cons.prems have "w' = w\<lparr>calls := calls w @ [mk x]\<rparr>" "e' = e"
      by (auto simp: call_def)
    with Inl show ?thesis by auto
  next
    case (Inr v)
    with Cons.prems have *: "for_each api mk xs (w\<lparr>calls := calls w @ [mk x]\<rparr>) = (Inl e, w')"
      by (simp add: call_def)
    from for_each_calls[OF *] have "length (calls w') > length (calls w)" by auto
    with Cons.IH[OF *] show ?thesis by auto
  qed
qed

section \<open>The order of the writes of \<^verbatim>\<open>RoleSyncer._sync\<close>\<close>




section \<open>The writes of \<^verbatim>\<open>UserSyncer._sync\<close>\<close>

text \<open>
  C10. For a user diff with the created users \<open>cs\<close> and the updates \<open>us\<close>,
  \<^verbatim>\<open>UserSyncer._sync\<close> sends the POST of the whole batch when and only when \<open>cs\<close> is
  not empty, and then the bulk PATCH when and only when \<open>us\<close> is not empty (and the
  POST, if there was one, did not raise). With both empty it sends nothing and returns.
\<close>

theorem user_sync_calls:
  "calls (snd (UserSyncer_sync api \<lparr>created = Some cs, updated = Some us, deleted = dl\<rparr> w)) =
     calls w
     @ (if cs = [] then [] else [Request POST ''bot/users'' JNull (JList (map JDict cs))])
     @ (if us = [] then []
        else if cs = [] then [Request PATCH ''bot/users/bulk_patch'' JNull (JList (map JDict us))]
        else (case api (calls w) (Request POST ''bot/users'' JNull (JList (map JDict cs))) of
                Inl e \<Rightarrow> []
              | Inr r \<Rightarrow> [Request PATCH ''bot/users/bulk_patch'' JNull (JList (map JDict us))]))
   \<and> UserSyncer_sync api \<lparr>created = Some [], updated = Some [], deleted = dl\<rparr> w = (Inr (), w)"
  by (auto simp: UserSyncer_sync_def call_if_def list_true_def post_users_def patch_users_def
        payload_def call_def split: sum.splits)

section \<open>The diff of the roles\<close>

lemma role_get_diff_result:
  assumes "api (calls w) (Request GET ''bot/roles'' JNull JNull) = Inr (RolesResponse rs)"
  shows "RoleSyncer_get_diff api guild w =
     Some (Inr \<lparr>created = Some {r \<in> set (roles guild). role_id r \<notin> role_id ` set rs},
                updated = Some (set (roles guild) - set rs
                                 - {r \<in> set (roles guild). role_id r \<notin> role_id ` set rs}),
                deleted = Some {r \<in> set rs. role_id r \<notin> role_id ` set (roles guild)}\<rparr>,
           w\<lparr>calls := calls w @ [Request GET ''bot/roles'' JNull JNull]\<rparr>)"
  using assms by (auto simp: RoleSyncer_get_diff_def call_def Let_def)

lemma id_sets_disjoint:
  fixes f :: "'r \<Rightarrow> int"
  shows "f ` {r \<in> L. f r \<notin> f ` B} \<inter> f ` (L - B - {r \<in> L. f r \<notin> f ` B}) = {}"
    and "f ` {r \<in> L. f r \<notin> f ` B} \<inter> f ` {r \<in> B. f r \<notin> f ` L} = {}"
    and "f ` (L - B - {r \<in> L. f r \<notin> f ` B}) \<inter> f ` {r \<in> B. f r \<notin> f ` L} = {}"
  by (auto simp: image_iff)

lemma roles_of_site:
  "site we hist (Request GET ''bot/roles'' JNull JNull) =
     Inr (RolesResponse [role_b_old, role_c, role_d])"
  by (simp add: site_def)

text \<open>
  C2. When the site answers \<^verbatim>\<open>GET bot/roles\<close> with the roles \<open>rs\<close>, the diff of
  \<^verbatim>\<open>RoleSyncer._get_diff\<close> has, for the set \<open>L\<close> of the roles of the guild and the set
  \<open>B\<close> of \<open>rs\<close>: as created the roles of \<open>L\<close> whose id no role of \<open>B\<close> has, as deleted the
  roles of \<open>B\<close> whose id no role of \<open>L\<close> has, and as updated \<open>L\<close> minus \<open>B\<close> minus the
  created ones. A role that is in \<open>B\<close>, equal in its five fields to a role of the site,
  is not among the updated.
\<close>

theorem role_diff_sets:
  assumes "api (calls w) (Request GET ''bot/roles'' JNull JNull) = Inr (RolesResponse rs)"
  shows "\<exists>c u d w'. RoleSyncer_get_diff api guild w =
             Some (Inr \<lparr>created = Some c, updated = Some u, deleted = Some d\<rparr>, w')
           \<and> c = {r \<in> set (roles guild). role_id r \<notin> role_id ` set rs}
           \<and> d = {r \<in> set rs. role_id r \<notin> role_id ` set (roles guild)}
           \<and> u = (set (roles guild) - set rs) - c
           \<and> u \<inter> set rs = {}"
  using role_get_diff_result [where api = api and w = w and guild = guild, OF assms] by auto

theorem role_diff_sets_witness:
  "site None (calls no_calls) (Request GET ''bot/roles'' JNull JNull) =
     Inr (RolesResponse [role_b_old, role_c, role_d])
   \<and> (\<exists>c u d w'. RoleSyncer_get_diff (site None) the_guild no_calls =
          Some (Inr \<lparr>created = Some c, updated = Some u, deleted = Some d\<rparr>, w')
        \<and> c = {role_a} \<and> d = {role_c} \<and> u = {role_b} \<and> u \<inter> {role_b_old, role_c, role_d} = {})"
proof -
  have c: "{r \<in> set (roles the_guild). role_id r \<notin> role_id ` set [role_b_old, role_c, role_d]}
             = {role_a}"
    by (auto simp: the_guild_def role_a_def role_b_def role_b_old_def role_c_def role_d_def)
  have d: "{r \<in> set [role_b_old, role_c, role_d]. role_id r \<notin> role_id ` set (roles the_guild)}
             = {role_c}"
    by (auto simp: the_guild_def role_a_def role_b_def role_b_old_def role_c_def role_d_def)
  have u: "set (roles the_guild) - set [role_b_old, role_c, role_d] - {role_a} = {role_b}"
    by (auto simp: the_guild_def role_a_def role_b_def role_b_old_def role_c_def role_d_def)
  from role_diff_sets [where api = "site None" and w = no_calls and guild = the_guild,
      OF roles_of_site]
  obtain c' u' d' w' where run: "RoleSyncer_get_diff (site None) the_guild no_calls =
          Some (Inr \<lparr>created = Some c', updated = Some u', deleted = Some d'\<rparr>, w')"
    and c': "c' = {r \<in> set (roles the_guild). role_id r \<notin> role_id ` set [role_b_old, role_c, role_d]}"
    and d': "d' = {r \<in> set [role_b_old, role_c, role_d]. role_id r \<notin> role_id ` set (roles the_guild)}"
    and u': "u' = set (roles the_guild) - set [role_b_old, role_c, role_d] - c'"
    and i': "u' \<inter> set [role_b_old, role_c, role_d] = {}"
    by blast
  from i' have "u' \<inter> {role_b_old, role_c, role_d} = {}" by simp
  moreover from c' c have "c' = {role_a}" by simp
  moreover from d' d have "d' = {role_c}" by simp
  moreover from u' u \<open>c' = {role_a}\<close> have "u' = {role_b}" by simp
  ultimately show ?thesis using run roles_of_site [of None "calls no_calls"] by blast
qed

section \<open>The diff of the users\<close>

lemma diff_step_entries:
  "diff_step guild u (upd, seen) =
     (upd @ update_entries guild u, snd (updated_fields_of guild u) \<union> seen)"
  by (cases "updated_fields_of guild u") (simp add: diff_step_def update_entries_def)

lemma fold_diff_step:
  "fold (diff_step guild) db_users (upd, seen) =
     (upd @ concat (map (update_entries guild) db_users),
      (\<Union>u \<in> set db_users. snd (updated_fields_of guild u)) \<union> seen)"
proof (induction db_users arbitrary: upd seen)
  case Nil
  then show ?case by simp
next
  case (Cons u us)
  show ?case
    by (simp add: diff_step_entries Cons.IH Un_assoc Un_commute Un_left_commute)
qed

lemma get_member_None: "get_member guild i = None \<longleftrightarrow> i \<notin> member_id ` set (members guild)"
  by (auto simp: get_member_def find_None_iff)

lemma get_member_Some: "get_member guild i = Some m \<Longrightarrow> member_id m = i \<and> m \<in> set (members guild)"
  by (auto simp: get_member_def find_Some_iff)

lemma met_member:
  "snd (updated_fields_of guild u) =
     (if user_id u \<in> member_id ` set (members guild) then {user_id u} else {})"
proof (cases "get_member guild (user_id u)")
  case None
  moreover from None have "user_id u \<notin> member_id ` set (members guild)"
    by (simp add: get_member_None)
  ultimately show ?thesis
    by (simp add: updated_fields_of_def)
next
  case (Some m)
  from get_member_Some[OF Some] have "user_id u \<in> member_id ` set (members guild)" "member_id m = user_id u"
    by (auto simp: image_iff intro: bexI[of _ m])
  with Some show ?thesis
    by (simp add: updated_fields_of_def Let_def)
qed

lemma seen_after:
  "(\<Union>u \<in> set db_users. snd (updated_fields_of guild u)) =
     user_id ` set db_users \<inter> member_id ` set (members guild)"
  by (auto simp: met_member split: if_splits)

lemma user_get_diff_result:
  assumes "UserSyncer_get_users api w = Some (Inr db_users, w')"
  shows "UserSyncer_get_diff api guild w =
     Some (Inr \<lparr>created = Some (map new_user
                    [m \<leftarrow> members guild. member_id m \<notin> user_id ` set db_users]),
                updated = Some (concat (map (update_entries guild) db_users)),
                deleted = None\<rparr>, w')"
proof -
  have "[m \<leftarrow> members guild. member_id m \<notin> user_id ` set db_users \<inter> member_id ` set (members guild)]
        = [m \<leftarrow> members guild. member_id m \<notin> user_id ` set db_users]"
    by (rule filter_cong) auto
  with assms show ?thesis
    by (simp add: UserSyncer_get_diff_def fold_diff_step seen_after)
qed

lemma id_of_update [simp]: "map_of (AList.update ''id'' v d) ''id'' = Some v"
  by (simp add: update_conv')

lemma id_of_new_user [simp]: "map_of (new_user m) ''id'' = Some (JInt (member_id m))"
  by (simp add: new_user_def)

lemma id_of_entries:
  "e \<in> set (update_entries guild u) \<Longrightarrow> map_of e ''id'' = Some (JInt (user_id u))"
  by (auto simp: update_entries_def split: if_splits)

lemma entries_left:
  "user_id u \<notin> member_id ` set (members guild) \<Longrightarrow>
     update_entries guild u =
       (if in_guild u then [[(''in_guild'', JBool False), (''id'', JInt (user_id u))]] else [])"
  by (simp add: update_entries_def updated_fields_of_def get_member_None[symmetric])

lemma filter_entries:
  "filter (\<lambda>d. map_of d ''id'' = Some (JInt i)) (concat (map (update_entries guild) us)) =
     concat (map (update_entries guild) (filter (\<lambda>u. user_id u = i) us))"
proof (induction us)
  case Nil
  then show ?case by simp
next
  case (Cons u us)
  have "filter (\<lambda>d. map_of d ''id'' = Some (JInt i)) (update_entries guild u) =
          (if user_id u = i then update_entries guild u else [])"
    by (auto simp: filter_empty_conv id_of_entries filter_id_conv)
  with Cons show ?case by simp
qed

lemma entries_of_absent:
  "i \<notin> member_id ` set (members guild) \<Longrightarrow>
     concat (map (update_entries guild) (filter (\<lambda>u. user_id u = i) us)) =
       map (\<lambda>u. [(''in_guild'', JBool False), (''id'', JInt i)])
         (filter (\<lambda>u. user_id u = i \<and> in_guild u) us)"
  by (induction us) (auto simp: entries_left)

lemma users_of_site:
  "UserSyncer_get_users (site None) no_calls =
     Some (Inr [user_1, user_2, user_3],
           \<lparr>calls = [get_page (Some 1), get_page (Some 2)], messages = []\<rparr>)"
  by (simp add: UserSyncer_get_users_def get_users_from.simps page_true_def call_def site_def
        no_calls_def get_page_def)

lemma member_ids: "member_id ` set (members the_guild) = {1, 9}"
  by (simp add: the_guild_def member_1_def member_9_def)

text \<open>
  C4. Let \<open>i\<close> be an id that no member of the guild has, and \<open>db_users\<close> the users the
  site returned. Among the updates of the diff, those for \<open>i\<close> are one for each record of
  \<open>db_users\<close> with the id \<open>i\<close> and \<^verbatim>\<open>in_guild\<close> true, each made of \<^verbatim>\<open>in_guild = False\<close>
  and the id and of nothing else. A record with \<^verbatim>\<open>in_guild\<close> false adds none.
\<close>

theorem user_diff_left:
  assumes users: "UserSyncer_get_users api w = Some (Inr db_users, w')"
    and absent: "i \<notin> member_id ` set (members guild)"
  shows "\<exists>diff upd. UserSyncer_get_diff api guild w = Some (Inr diff, w')
           \<and> updated diff = Some upd
           \<and> filter (\<lambda>d. map_of d ''id'' = Some (JInt i)) upd =
               map (\<lambda>u. [(''in_guild'', JBool False), (''id'', JInt i)])
                 (filter (\<lambda>u. user_id u = i \<and> in_guild u) db_users)"
  using user_get_diff_result [OF users, of guild] entries_of_absent [OF absent, of db_users]
  by (simp add: filter_entries)

theorem user_diff_left_witness:
  "UserSyncer_get_users (site None) no_calls =
     Some (Inr [user_1, user_2, user_3],
           \<lparr>calls = [get_page (Some 1), get_page (Some 2)], messages = []\<rparr>)
   \<and> 2 \<notin> member_id ` set (members the_guild)
   \<and> (\<exists>diff upd. UserSyncer_get_diff (site None) the_guild no_calls =
          Some (Inr diff, \<lparr>calls = [get_page (Some 1), get_page (Some 2)], messages = []\<rparr>)
        \<and> updated diff = Some upd
        \<and> filter (\<lambda>d. map_of d ''id'' = Some (JInt 2)) upd =
             [[(''in_guild'', JBool False), (''id'', JInt 2)]])"
proof -
  have absent: "2 \<notin> member_id ` set (members the_guild)"
    by (simp add: member_ids)
  from user_diff_left [OF users_of_site absent] users_of_site absent
  show ?thesis
    by (simp add: user_1_def user_2_def user_3_def)
qed

text \<open>
  C5. The created users of the diff are, in the order of \<^verbatim>\<open>guild.members\<close>, the members
  whose id no record of \<open>db_users\<close> has, each as the full record of its id, name,
  discriminator and roles with \<^verbatim>\<open>in_guild = True\<close>. A member whose id a record has is
  not among them.
\<close>

theorem user_diff_joined:
  assumes users: "UserSyncer_get_users api w = Some (Inr db_users, w')"
  shows "\<exists>diff. UserSyncer_get_diff api guild w = Some (Inr diff, w')
           \<and> created diff =
               Some (map (\<lambda>m. [(''id'', JInt (member_id m)), (''name'', JStr (member_name m)),
                                (''discriminator'', JInt (member_discriminator m)),
                                (''roles'', JList (map (\<lambda>r. JInt (role_id r)) (member_roles m))),
                                (''in_guild'', JBool True)])
                       [m \<leftarrow> members guild. member_id m \<notin> user_id ` set db_users])"
  using user_get_diff_result [OF users, of guild]
  by (simp add: new_user_def [abs_def])

theorem user_diff_joined_witness:
  "UserSyncer_get_users (site None) no_calls =
     Some (Inr [user_1, user_2, user_3],
           \<lparr>calls = [get_page (Some 1), get_page (Some 2)], messages = []\<rparr>)
   \<and> (\<exists>diff. UserSyncer_get_diff (site None) the_guild no_calls =
          Some (Inr diff, \<lparr>calls = [get_page (Some 1), get_page (Some 2)], messages = []\<rparr>)
        \<and> created diff =
            Some [[(''id'', JInt 9), (''name'', JStr ''new''), (''discriminator'', JInt 9),
                   (''roles'', JList [JInt 2]), (''in_guild'', JBool True)]])"
  using user_diff_joined [OF users_of_site, of the_guild] users_of_site
  by (simp add: user_1_def user_2_def user_3_def the_guild_def member_1_def member_9_def role_b_def)

text \<open>
  C3. In the diff of the roles, no id is the id of roles of two of the three fields. In
  the diff of the users, whose deleted field is \<^verbatim>\<open>None\<close>, every created and every
  updated entry has an id, and no id is the id of a created and of an updated entry.
  Both hold for all snapshots, those without repeated ids among them.
\<close>

theorem partitions_disjoint:
  "(api (calls w) (Request GET ''bot/roles'' JNull JNull) = Inr (RolesResponse rs) \<longrightarrow>
      (\<exists>c u d w'. RoleSyncer_get_diff api guild w =
             Some (Inr \<lparr>created = Some c, updated = Some u, deleted = Some d\<rparr>, w')
           \<and> role_id ` c \<inter> role_id ` u = {}
           \<and> role_id ` c \<inter> role_id ` d = {}
           \<and> role_id ` u \<inter> role_id ` d = {}))
   \<and> (UserSyncer_get_users api w = Some (Inr db_users, w2) \<longrightarrow>
      (\<exists>c u. UserSyncer_get_diff api guild w =
             Some (Inr \<lparr>created = Some c, updated = Some u, deleted = None\<rparr>, w2)
           \<and> None \<notin> (\<lambda>d. map_of d ''id'') ` (set c \<union> set u)
           \<and> (\<lambda>d. map_of d ''id'') ` set c \<inter> (\<lambda>d. map_of d ''id'') ` set u = {}))"
proof (intro conjI impI)
  assume "api (calls w) (Request GET ''bot/roles'' JNull JNull) = Inr (RolesResponse rs)"
  from role_get_diff_result [where api = api and w = w and guild = guild, OF this]
  show "\<exists>c u d w'. RoleSyncer_get_diff api guild w =
             Some (Inr \<lparr>created = Some c, updated = Some u, deleted = Some d\<rparr>, w')
           \<and> role_id ` c \<inter> role_id ` u = {}
           \<and> role_id ` c \<inter> role_id ` d = {}
           \<and> role_id ` u \<inter> role_id ` d = {}"
    by (simp add: id_sets_disjoint)
next
  assume users: "UserSyncer_get_users api w = Some (Inr db_users, w2)"
  let ?c = "map new_user [m \<leftarrow> members guild. member_id m \<notin> user_id ` set db_users]"
  let ?u = "concat (map (update_entries guild) db_users)"
  have ids_u: "map_of e ''id'' \<in> (\<lambda>x. Some (JInt x)) ` user_id ` set db_users" if "e \<in> set ?u" for e
    using that by (auto simp: id_of_entries)
  have ids_c: "map_of e ''id'' \<in> (\<lambda>x. Some (JInt x)) ` (- user_id ` set db_users)" if "e \<in> set ?c" for e
    using that by auto
  have "None \<notin> (\<lambda>d. map_of d ''id'') ` (set ?c \<union> set ?u)"
    using ids_u ids_c by (metis (no_types, lifting) Un_iff image_iff option.distinct(1))
  moreover have "(\<lambda>d. map_of d ''id'') ` set ?c \<inter> (\<lambda>d. map_of d ''id'') ` set ?u = {}"
  proof -
    have "False" if "a \<in> set ?c" "b \<in> set ?u" "map_of a ''id'' = map_of b ''id''" for a b
      using ids_c[OF that(1)] ids_u[OF that(2)] that(3) by auto
    then show ?thesis by blast
  qed
  ultimately show "\<exists>c u. UserSyncer_get_diff api guild w =
             Some (Inr \<lparr>created = Some c, updated = Some u, deleted = None\<rparr>, w2)
           \<and> None \<notin> (\<lambda>d. map_of d ''id'') ` (set c \<union> set u)
           \<and> (\<lambda>d. map_of d ''id'') ` set c \<inter> (\<lambda>d. map_of d ''id'') ` set u = {}"
    using user_get_diff_result [OF users, of guild] by blast
qed

theorem partitions_disjoint_witness:
  "site None (calls no_calls) (Request GET ''bot/roles'' JNull JNull) =
     Inr (RolesResponse [role_b_old, role_c, role_d])
   \<and> (\<exists>c u d w'. RoleSyncer_get_diff (site None) the_guild no_calls =
          Some (Inr \<lparr>created = Some c, updated = Some u, deleted = Some d\<rparr>, w')
        \<and> role_id ` c \<inter> role_id ` u = {}
        \<and> role_id ` c \<inter> role_id ` d = {}
        \<and> role_id ` u \<inter> role_id ` d = {})
   \<and> UserSyncer_get_users (site None) no_calls =
       Some (Inr [user_1, user_2, user_3],
             \<lparr>calls = [get_page (Some 1), get_page (Some 2)], messages = []\<rparr>)
   \<and> (\<exists>c u. UserSyncer_get_diff (site None) the_guild no_calls =
          Some (Inr \<lparr>created = Some c, updated = Some u, deleted = None\<rparr>,
                \<lparr>calls = [get_page (Some 1), get_page (Some 2)], messages = []\<rparr>)
        \<and> None \<notin> (\<lambda>d. map_of d ''id'') ` (set c \<union> set u)
        \<and> (\<lambda>d. map_of d ''id'') ` set c \<inter> (\<lambda>d. map_of d ''id'') ` set u = {})"
  using partitions_disjoint [where api = "site None" and w = no_calls and guild = the_guild
      and rs = "[role_b_old, role_c, role_d]" and db_users = "[user_1, user_2, user_3]"
      and ?w2.0 = "\<lparr>calls = [get_page (Some 1), get_page (Some 2)], messages = []\<rparr>"]
    roles_of_site [of None "calls no_calls"] users_of_site
  by blast

section \<open>The pages of the users\<close>

lemma get_users_from_serves:
  "serves api (calls w) page pages \<Longrightarrow> page \<noteq> None \<Longrightarrow> page \<noteq> Some 0 \<Longrightarrow>
     get_users_from api page acc w =
       Some (Inr (acc @ concat (map fst pages)),
             w\<lparr>calls := calls w @ map get_page (page # map snd (butlast pages))\<rparr>)"
proof (induction api "calls w" page pages arbitrary: w acc rule: serves.induct)
  case (1 api page)
  then show ?case by simp
next
  case (2 api page res nxt)
  then show ?case
    by (subst get_users_from.simps, subst get_users_from.simps)
       (auto simp: page_true_def call_def)
next
  case (3 api page res nxt p ps)
  from "3.prems" have ans: "api (calls w) (get_page page) = Inr (UsersPage res nxt)"
    and nxt: "nxt \<noteq> None" "nxt \<noteq> Some 0"
    and rest: "serves api (calls w @ [get_page page]) nxt (p # ps)"
    by auto
  let ?w = "w\<lparr>calls := calls w @ [get_page page]\<rparr>"
  have "get_users_from api nxt (acc @ res) ?w =
       Some (Inr ((acc @ res) @ concat (map fst (p # ps))),
             ?w\<lparr>calls := calls ?w @ map get_page (nxt # map snd (butlast (p # ps)))\<rparr>)"
    by (rule "3.hyps") (use rest nxt in simp_all)
  moreover have "get_users_from api page acc w = get_users_from api nxt (acc @ res) ?w"
    using "3.prems" ans by (subst get_users_from.simps) (auto simp: page_true_def call_def)
  ultimately show ?case by simp
qed

text \<open>
  C6. When the site serves the pages \<open>pages\<close> from the cursor \<open>1\<close> on,
  \<^verbatim>\<open>UserSyncer._get_users\<close> ends, has asked for the page \<open>1\<close> and then for the
  \<^verbatim>\<open>next_page_no\<close> of every page but the last, in this order, and has yielded the
  results of all pages, in this order.
\<close>

theorem get_users_pages:
  assumes "serves api (calls w) (Some 1) pages"
  shows "UserSyncer_get_users api w =
           Some (Inr (concat (map fst pages)),
                 w\<lparr>calls := calls w @ map get_page (Some 1 # map snd (butlast pages))\<rparr>)"
  using get_users_from_serves [OF assms, of "[]"] by (simp add: UserSyncer_get_users_def)

theorem get_users_pages_witness:
  "serves (site None) (calls no_calls) (Some 1) [([user_1, user_2], Some 2), ([user_3], None)]
   \<and> UserSyncer_get_users (site None) no_calls =
       Some (Inr [user_1, user_2, user_3],
             \<lparr>calls = [get_page (Some 1), get_page (Some 2)], messages = []\<rparr>)"
proof -
  have s: "serves (site None) (calls no_calls) (Some 1)
             [([user_1, user_2], Some 2), ([user_3], None)]"
    by (simp add: site_def no_calls_def get_page_def)
  from get_users_pages [OF s]
  have "UserSyncer_get_users (site None) no_calls =
       Some (Inr [user_1, user_2, user_3],
             \<lparr>calls = [get_page (Some 1), get_page (Some 2)], messages = []\<rparr>)"
    by (simp add: no_calls_def)
  with s show ?thesis by blast
qed

section \<open>Requests stop at the first one that raises\<close>

text \<open>
  Every loop of \<^verbatim>\<open>_sync\<close> awaits its requests one after the other, and nothing in
  \<^verbatim>\<open>_sync\<close> catches an exception: the request that raises is the last one sent.
\<close>

lemma stops_return: "stops api w (Inr x, w)"
  by (simp add: stops_def)

lemma stops_call: "stops api w (call api req w)"
  by (auto simp: stops_def call_def less_Suc_eq)

lemma stops_raised:
  "api (calls w) req = Inl e \<Longrightarrow> stops api w (Inl e, w\<lparr>calls := calls w @ [req]\<rparr>)"
  by (auto simp: stops_def less_Suc_eq)

lemma stops_answered:
  "api (calls w) req = Inr v \<Longrightarrow> stops api w (Inr x, w\<lparr>calls := calls w @ [req]\<rparr>)"
  by (auto simp: stops_def less_Suc_eq)

lemma stops_then:
  assumes first: "stops api w (Inr x, w1)" and rest: "stops api w1 rw"
  shows "stops api w rw"
proof -
  let ?cs = "calls (snd rw)"
  from first have p1: "take (length (calls w)) (calls w1) = calls w"
    and l1: "length (calls w) \<le> length (calls w1)" and m1: "messages w1 = messages w"
    and n1: "\<And>i e. length (calls w) \<le> i \<Longrightarrow> i < length (calls w1) \<Longrightarrow>
               api (take i (calls w1)) (calls w1 ! i) = Inl e \<Longrightarrow> False"
    by (auto simp: stops_def)
  from rest have p2: "take (length (calls w1)) ?cs = calls w1"
    and l2: "length (calls w1) \<le> length ?cs" and m2: "messages (snd rw) = messages w1"
    and n2: "\<And>i e. length (calls w1) \<le> i \<Longrightarrow> i < length ?cs \<Longrightarrow>
               api (take i ?cs) (?cs ! i) = Inl e \<Longrightarrow> Suc i = length ?cs \<and> fst rw = Inl e"
    by (auto simp: stops_def)
  have pre: "take i ?cs = take i (calls w1)" if "i \<le> length (calls w1)" for i
  proof -
    have "take i (take (length (calls w1)) ?cs) = take i ?cs"
      using that by (simp add: min_def)
    with p2 show ?thesis by simp
  qed
  have nth: "?cs ! i = calls w1 ! i" if "i < length (calls w1)" for i
  proof -
    have "take (length (calls w1)) ?cs ! i = ?cs ! i" using that by simp
    with p2 show ?thesis by simp
  qed
  have "take (length (calls w)) ?cs = calls w"
    using pre [OF l1] p1 by simp
  moreover have "length (calls w) \<le> length ?cs" using l1 l2 by simp
  moreover have "messages (snd rw) = messages w" using m1 m2 by simp
  moreover have "Suc i = length ?cs \<and> fst rw = Inl e"
    if "length (calls w) \<le> i" "i < length ?cs" "api (take i ?cs) (?cs ! i) = Inl e" for i e
  proof (cases "i < length (calls w1)")
    case True
    with that pre [of i] nth [of i] have "api (take i (calls w1)) (calls w1 ! i) = Inl e" by simp
    with n1 that True show ?thesis by blast
  next
    case False
    with that n2 [of i e] show ?thesis by simp
  qed
  ultimately show ?thesis unfolding stops_def by blast
qed

lemma stops_for_each: "stops api w (for_each api mk xs w)"
proof (induction xs arbitrary: w)
  case Nil
  show ?case by (simp add: stops_return)
next
  case (Cons x xs)
  show ?case
  proof (cases "api (calls w) (mk x)")
    case (Inl e)
    with stops_raised [of api w "mk x" e] show ?thesis by (simp add: call_def)
  next
    case (Inr v)
    from stops_then [OF stops_answered [of api w "mk x" v "()", OF Inr] Cons.IH] Inr
    show ?thesis by (simp add: call_def)
  qed
qed

lemma stops_iterate: "stops api w (iterate iter api mk field w)"
proof (cases field)
  case None
  then show ?thesis by (auto simp: iterate_def stops_def)
next
  case (Some s)
  then show ?thesis by (simp add: iterate_def stops_for_each)
qed

lemma stops_role_sync: "stops api w (RoleSyncer_sync iter api diff w)"
proof -
  obtain r1 w1 where s1: "iterate iter api post_role (created diff) w = (r1, w1)"
    by (cases "iterate iter api post_role (created diff) w")
  have st1: "stops api w (r1, w1)" using stops_iterate [of api w iter post_role "created diff"] s1 by simp
  show ?thesis
  proof (cases r1)
    case (Inl e)
    with s1 st1 show ?thesis by (simp add: RoleSyncer_sync_def)
  next
    case (Inr u1)
    obtain r2 w2 where s2: "iterate iter api put_role (updated diff) w1 = (r2, w2)"
      by (cases "iterate iter api put_role (updated diff) w1")
    have st2: "stops api w1 (r2, w2)"
      using stops_iterate [of api w1 iter put_role "updated diff"] s2 by simp
    from st1 Inr have "stops api w (Inr u1, w1)" by simp
    from stops_then [OF this st2] have st12: "stops api w (r2, w2)" .
    show ?thesis
    proof (cases r2)
      case (Inl e)
      with s1 s2 \<open>r1 = Inr u1\<close> st12 show ?thesis by (simp add: RoleSyncer_sync_def)
    next
      case (Inr u2)
      with st12 have "stops api w (Inr u2, w2)" by simp
      from stops_then [OF this stops_iterate]
      have "stops api w (iterate iter api delete_role (deleted diff) w2)" .
      with s1 s2 \<open>r1 = Inr u1\<close> Inr show ?thesis by (simp add: RoleSyncer_sync_def)
    qed
  qed
qed

lemma stops_call_if: "stops api w (call_if b api req w)"
proof (cases b)
  case False
  then show ?thesis by (simp add: call_if_def stops_return)
next
  case True
  show ?thesis
  proof (cases "api (calls w) req")
    case (Inl e)
    with True stops_raised [of api w req e] show ?thesis by (simp add: call_if_def call_def)
  next
    case (Inr v)
    with True stops_answered [of api w req v "()"] show ?thesis
      by (simp add: call_if_def call_def)
  qed
qed

lemma stops_user_sync: "stops api w (UserSyncer_sync api diff w)"
proof -
  obtain r1 w1 where s1:
    "call_if (list_true (created diff)) api (post_users (created diff)) w = (r1, w1)"
    by (cases "call_if (list_true (created diff)) api (post_users (created diff)) w")
  have st1: "stops api w (r1, w1)"
    using stops_call_if [of api w "list_true (created diff)" "post_users (created diff)"] s1
    by simp
  show ?thesis
  proof (cases r1)
    case (Inl e)
    with s1 st1 show ?thesis by (simp add: UserSyncer_sync_def)
  next
    case (Inr u)
    with st1 have "stops api w (Inr u, w1)" by simp
    from stops_then [OF this stops_call_if]
    have "stops api w
        (call_if (list_true (updated diff)) api (patch_users (updated diff)) w1)" .
    with s1 Inr show ?thesis by (simp add: UserSyncer_sync_def)
  qed
qed

lemma stops_last:
  assumes "stops api w (r, w')" and "length (calls w) \<le> i" and "i < length (calls w')"
    and "api (take i (calls w')) (calls w' ! i) = Inl e"
  shows "Suc i = length (calls w') \<and> r = Inl e"
  using assms by (auto simp: stops_def)


section \<open>What a run leaves in the channel\<close>

text \<open>
  Neither \<^verbatim>\<open>_get_diff\<close> nor \<^verbatim>\<open>_sync\<close> writes to the channel.
\<close>

lemma role_get_diff_messages:
  "RoleSyncer_get_diff api guild w = Some (r, w') \<Longrightarrow> messages w' = messages w"
  by (auto simp: RoleSyncer_get_diff_def call_def Let_def split: sum.splits response.splits)

lemma role_sync_messages:
  "RoleSyncer_sync iter api diff w = (r, w') \<Longrightarrow> messages w' = messages w"
  using stops_role_sync [of api w iter diff] by (simp add: stops_def)

lemma get_users_from_messages:
  "get_users_from api page acc w = Some rw \<Longrightarrow> messages (snd rw) = messages w"
  apply (erule get_users_from.raw_induct
           [where P = "\<lambda>api page acc w rw. messages (snd rw) = messages w", rotated])
  apply (auto simp: call_def split: if_splits sum.splits response.splits)
  done

lemma user_get_diff_messages:
  "UserSyncer_get_diff api guild w = Some (r, w') \<Longrightarrow> messages w' = messages w"
  by (auto simp: UserSyncer_get_diff_def UserSyncer_get_users_def Let_def
        split: option.splits prod.splits sum.splits dest!: get_users_from_messages)

lemma user_sync_messages:
  "UserSyncer_sync api diff w = (r, w') \<Longrightarrow> messages w' = messages w"
  using stops_user_sync [of api w diff] by (simp add: stops_def)


section \<open>\<^verbatim>\<open>Syncer.sync\<close>, one case at a time\<close>

text \<open>
  Lines 50 to 53 and lines 72 and 73: what \<^verbatim>\<open>ctx.send\<close> and \<^verbatim>\<open>message.edit\<close> leave,
  when they raise and when they do not.
\<close>

lemma start_raised:
  "send_raises ctx nm w = Some x \<Longrightarrow> start ctx nm w = (Inl (Unclassified x), w)"
  by (cases ctx) (simp_all add: send_raises_def start_def send_def)

lemma start_sent:
  "send_raises ctx nm w = None \<Longrightarrow> start ctx nm w = (Inr (sent ctx w), announced ctx nm w)"
  by (cases ctx) (simp_all add: send_raises_def start_def send_def sent_def announced_def)

lemma finish_raised:
  "edit_raises ctx w content w3 = Some x \<Longrightarrow>
     finish (sent ctx w) content w3 = (Inl (Unclassified x), w3)"
  by (cases ctx) (simp_all add: edit_raises_def finish_def sent_def edit_def)

lemma finish_edited:
  "edit_raises ctx w content w3 = None \<Longrightarrow>
     finish (sent ctx w) content w3 =
       (Inr (), case ctx of None \<Rightarrow> w3
                | Some c \<Rightarrow> w3\<lparr>messages := (messages w3)[length (messages w) := content]\<rparr>)"
  by (cases ctx) (simp_all add: edit_raises_def finish_def sent_def edit_def)


lemma sync_send_raised:
  "send_raises ctx (name self) w = Some x \<Longrightarrow>
     Syncer_sync rs self api guild ctx w = Some (Inl (Unclassified x), w)"
  by (simp add: Syncer_sync_def start_raised)




lemma sync_write_failed:
  "send_raises ctx (name self) w = None \<Longrightarrow>
   get_diff self api guild (announced ctx (name self) w) = Some (Inr diff, w2) \<Longrightarrow>
   sync_diff self api diff w2 = (Inl (ResponseCodeError st js), w3) \<Longrightarrow>
     Syncer_sync rs self api guild ctx w =
       Some (finish (sent ctx w) (failure_content rs (name self) st js) w3)"
  by (simp add: Syncer_sync_def start_sent)

lemma sync_written:
  "send_raises ctx (name self) w = None \<Longrightarrow>
   get_diff self api guild (announced ctx (name self) w) = Some (Inr diff, w2) \<Longrightarrow>
   sync_diff self api diff w2 = (Inr u, w3) \<Longrightarrow>
     Syncer_sync rs self api guild ctx w =
       Some (finish (sent ctx w) (success_content (name self) (len self) diff) w3)"
  by (simp add: Syncer_sync_def start_sent)

lemma role_syncer_fields [simp]:
  "name (RoleSyncer iter) = ''role''" "get_diff (RoleSyncer iter) = RoleSyncer_get_diff"
  "sync_diff (RoleSyncer iter) = RoleSyncer_sync iter" "len (RoleSyncer iter) = card"
  by (simp_all add: RoleSyncer_def)

lemma user_syncer_fields [simp]:
  "name UserSyncer = ''user''" "get_diff UserSyncer = UserSyncer_get_diff"
  "sync_diff UserSyncer = UserSyncer_sync" "len UserSyncer = length"
  by (simp_all add: UserSyncer_def)

lemma finish_cases:
  "finish (sent ctx w) content w3 = (r, wx) \<Longrightarrow>
     (r = Inr () \<and> edit_raises ctx w content w3 = None)
     \<or> (\<exists>x. r = Inl (Unclassified x) \<and> edit_raises ctx w content w3 = Some x \<and> wx = w3)"
  by (cases "edit_raises ctx w content w3") (auto simp: finish_raised finish_edited)

lemma finish_messages:
  "finish (sent ctx w) content w3 = (Inl e, wx) \<Longrightarrow> wx = w3"
  by (auto dest: finish_cases)


lemma role_get_diff_shape:
  "RoleSyncer_get_diff api guild w = Some (Inr diff, w') \<Longrightarrow>
     \<exists>c u d. diff = \<lparr>created = Some c, updated = Some u, deleted = Some d\<rparr>"
  by (auto simp: RoleSyncer_get_diff_def call_def Let_def split: sum.splits response.splits)

lemma user_get_diff_shape:
  "UserSyncer_get_diff api guild w = Some (Inr diff, w') \<Longrightarrow>
     \<exists>c u. diff = \<lparr>created = Some c, updated = Some u, deleted = None\<rparr>"
  by (auto simp: UserSyncer_get_diff_def Let_def split: option.splits sum.splits prod.splits)

lemma success_content_present:
  "success_content nm ln \<lparr>created = Some c, updated = Some u, deleted = Some d\<rparr> =
     '':ok_hand: Synchronisation of '' @ nm @ ''s complete: created `'' @ str_nat (ln c)
       @ ''`, updated `'' @ str_nat (ln u) @ ''`, deleted `'' @ str_nat (ln d) @ ''`''"
  by (simp add: success_content_def result_terms_def asdict_def)

lemma success_content_absent:
  "success_content nm ln \<lparr>created = Some c, updated = Some u, deleted = None\<rparr> =
     '':ok_hand: Synchronisation of '' @ nm @ ''s complete: created `'' @ str_nat (ln c)
       @ ''`, updated `'' @ str_nat (ln u) @ ''`''"
  by (simp add: success_content_def result_terms_def asdict_def)

lemma failure_content_text:
  "failure_content rs nm st js =
     '':x: Synchronisation of '' @ nm @ ''s failed: status '' @ str_int st @ [CHR 0x0A] @ ''```''
       @ (if truthy js then str rs js else ''See log output for details'') @ ''```''"
  by (simp add: failure_content_def failure_results_def)

lemma announced_messages:
  "messages (announced ctx nm w) =
     (case ctx of None \<Rightarrow> messages w | Some c \<Rightarrow> messages w @ [start_text nm])"
  by (cases ctx) (simp_all add: announced_def)

lemma finish_outcome:
  assumes "messages w3 = messages (announced ctx nm w)"
  shows "Some (finish (sent ctx w) content w3) =
     (case edit_raises ctx w content w3 of
        Some x \<Rightarrow> Some (Inl (Unclassified x), w3)
      | None \<Rightarrow> Some (Inr (), case ctx of None \<Rightarrow> w3
                              | Some x \<Rightarrow> w3\<lparr>messages := messages w @ [content]\<rparr>))"
proof (cases "edit_raises ctx w content w3")
  case (Some x)
  then show ?thesis by (simp add: finish_raised)
next
  case None
  with assms show ?thesis
    by (cases ctx) (simp_all add: finish_edited announced_messages)
qed


section \<open>Runs on the site\<close>

lemmas role_defs = role_a_def role_b_def role_b_old_def role_c_def role_d_def

lemma diff_all:
  "RoleSyncer_get_diff (site we) guild_all (announced (Some c) ''role'' no_calls) =
     Some (Inr \<lparr>created = Some {role_a}, updated = Some {role_b}, deleted = Some {}\<rparr>,
           \<lparr>calls = [Request GET ''bot/roles'' JNull JNull], messages = [start_text ''role'']\<rparr>)"
proof -
  have "{r \<in> set (roles guild_all). role_id r \<notin> role_id ` set [role_b_old, role_c, role_d]}
          = {role_a}"
    "{r \<in> set [role_b_old, role_c, role_d]. role_id r \<notin> role_id ` set (roles guild_all)} = {}"
    "set (roles guild_all) - set [role_b_old, role_c, role_d] - {role_a} = {role_b}"
    by (auto simp: guild_all_def role_defs)
  then show ?thesis
    by (simp add: role_get_diff_result [where rs = "[role_b_old, role_c, role_d]"] roles_of_site
          announced_def no_calls_def)
qed

lemma writes_all:
  "RoleSyncer_sync iter_roles (site None)
     \<lparr>created = Some {role_a}, updated = Some {role_b}, deleted = Some {}\<rparr>
     \<lparr>calls = [Request GET ''bot/roles'' JNull JNull], messages = [start_text ''role'']\<rparr> =
   (Inr (), \<lparr>calls = [Request GET ''bot/roles'' JNull JNull, post_role role_a, put_role role_b],
              messages = [start_text ''role'']\<rparr>)"
  by (simp add: RoleSyncer_sync_def iterate_def iter_roles_def call_def site_def role_defs
        post_role_def put_role_def get_page_def)

lemma users_diff_site:
  "UserSyncer_get_diff (site we) the_guild (announced (Some c) ''user'' no_calls) =
     Some (Inr \<lparr>created = Some [new_user member_9],
                updated = Some [[(''name'', JStr ''ada''), (''id'', JInt 1)],
                                [(''in_guild'', JBool False), (''id'', JInt 2)]],
                deleted = None\<rparr>,
           \<lparr>calls = [get_page (Some 1), get_page (Some 2)], messages = [start_text ''user'']\<rparr>)"
  by (simp add: UserSyncer_get_diff_def UserSyncer_get_users_def get_users_from.simps page_true_def
        call_def site_def announced_def no_calls_def get_page_def diff_step_def
        updated_fields_of_def get_member_def the_guild_def member_1_def member_9_def
        user_1_def user_2_def user_3_def maybe_update_def role_defs)

lemma users_written:
  "UserSyncer_sync (site None)
     \<lparr>created = Some [new_user member_9],
      updated = Some [[(''name'', JStr ''ada''), (''id'', JInt 1)],
                      [(''in_guild'', JBool False), (''id'', JInt 2)]],
      deleted = None\<rparr>
     \<lparr>calls = [get_page (Some 1), get_page (Some 2)], messages = [start_text ''user'']\<rparr> =
   (Inr (), \<lparr>calls = [get_page (Some 1), get_page (Some 2),
                        post_users (Some [new_user member_9]),
                        patch_users (Some [[(''name'', JStr ''ada''), (''id'', JInt 1)],
                                           [(''in_guild'', JBool False), (''id'', JInt 2)]])],
              messages = [start_text ''user'']\<rparr>)"
  by (simp add: UserSyncer_sync_def call_if_def list_true_def call_def site_def post_users_def
        patch_users_def payload_def get_page_def)

lemma diff_guild:
  "RoleSyncer_get_diff (site we) the_guild (announced (Some c) ''role'' no_calls) =
     Some (Inr \<lparr>created = Some {role_a}, updated = Some {role_b}, deleted = Some {role_c}\<rparr>,
           \<lparr>calls = [Request GET ''bot/roles'' JNull JNull], messages = [start_text ''role'']\<rparr>)"
proof -
  have "{r \<in> set (roles the_guild). role_id r \<notin> role_id ` set [role_b_old, role_c, role_d]}
          = {role_a}"
    "{r \<in> set [role_b_old, role_c, role_d]. role_id r \<notin> role_id ` set (roles the_guild)}
          = {role_c}"
    "set (roles the_guild) - set [role_b_old, role_c, role_d] - {role_a} = {role_b}"
    by (auto simp: the_guild_def role_defs)
  then show ?thesis
    by (simp add: role_get_diff_result [where rs = "[role_b_old, role_c, role_d]"] roles_of_site
          announced_def no_calls_def)
qed

lemma writes_fail:
  "RoleSyncer_sync iter_roles (site (Some e))
     \<lparr>created = Some {role_a}, updated = Some {role_b}, deleted = Some {role_c}\<rparr>
     \<lparr>calls = [Request GET ''bot/roles'' JNull JNull], messages = [start_text ''role'']\<rparr> =
   (Inl e, \<lparr>calls = [Request GET ''bot/roles'' JNull JNull, post_role role_a],
             messages = [start_text ''role'']\<rparr>)"
  by (simp add: RoleSyncer_sync_def iterate_def iter_roles_def call_def site_def role_defs
        post_role_def get_page_def)

lemma users_write_fail:
  "UserSyncer_sync (site (Some e))
     \<lparr>created = Some [new_user member_9],
      updated = Some [[(''name'', JStr ''ada''), (''id'', JInt 1)],
                      [(''in_guild'', JBool False), (''id'', JInt 2)]],
      deleted = None\<rparr>
     \<lparr>calls = [get_page (Some 1), get_page (Some 2)], messages = [start_text ''user'']\<rparr> =
   (Inl e, \<lparr>calls = [get_page (Some 1), get_page (Some 2),
                       post_users (Some [new_user member_9])],
             messages = [start_text ''user'']\<rparr>)"
  by (simp add: UserSyncer_sync_def call_if_def list_true_def call_def site_def post_users_def
        payload_def get_page_def)



lemma str_detail:
  "str repr_ascii (JDict [(''detail'', JStr ''x'')]) =
     ''{'' @ [CHR 0x27] @ ''detail'' @ [CHR 0x27] @ '': '' @ [CHR 0x27] @ ''x'' @ [CHR 0x27] @ ''}''"
  by (simp add: repr_ascii_def escape_char_def Let_def)

lemma str_500: "str_int 500 = ''500''"
  by (simp add: str_int_def str_nat.simps digit_def)

lemma reliable_sends [simp]: "send_raises (Some reliable) nm w = None"
  by (simp add: send_raises_def reliable_def)

lemma reliable_edits [simp]: "edit_raises (Some reliable) w content w3 = None"
  by (simp add: edit_raises_def reliable_def)

lemma no_send_raises [simp]: "send_raises (Some no_send) nm w = Some ''Forbidden''"
  by (simp add: send_raises_def no_send_def)


lemma no_edit_raises [simp]: "edit_raises (Some no_edit) w content w3 = Some ''NotFound''"
  by (simp add: edit_raises_def no_edit_def)



lemma failed_run:
  "Syncer_sync rs (RoleSyncer iter_roles) (site (Some (ResponseCodeError st js)))
     the_guild (Some reliable) no_calls =
     Some (Inr (),
           \<lparr>calls = [Request GET ''bot/roles'' JNull JNull, post_role role_a],
              messages = [failure_content rs ''role'' st js]\<rparr>)"
proof -
  have "Syncer_sync rs (RoleSyncer iter_roles) (site (Some (ResponseCodeError st js)))
     the_guild (Some reliable) no_calls =
     Some (finish (sent (Some reliable) no_calls) (failure_content rs (name (RoleSyncer iter_roles)) st js)
       \<lparr>calls = [Request GET ''bot/roles'' JNull JNull, post_role role_a],
            messages = [start_text ''role'']\<rparr>)"
    by (rule sync_write_failed
          [where diff = "\<lparr>created = Some {role_a}, updated = Some {role_b}, deleted = Some {role_c}\<rparr>"
            and ?w2.0 = "\<lparr>calls = [Request GET ''bot/roles'' JNull JNull],
                           messages = [start_text ''role'']\<rparr>"])
       (simp_all add: diff_guild writes_fail)
  then show ?thesis
    by (simp add: finish_edited no_calls_def)
qed


section \<open>The message of a run that succeeds\<close>

text \<open>
  C8. A run of \<^verbatim>\<open>sync\<close> whose \<^verbatim>\<open>_sync\<close> raises nothing ends with the message that
  counts every field of the diff that is not \<^verbatim>\<open>None\<close>. The diff of the roles has its
  three fields, so its message has the three counts, a count \<open>0\<close> for a field that is
  empty: no role to delete is \<^verbatim>\<open>deleted `0`\<close>. The deleted field of the diff of the users is
  \<^verbatim>\<open>None\<close>, so its message stops after the count of the updated users, for every guild
  and every site. The run composes this message for every \<^verbatim>\<open>ctx\<close>; it reaches the channel
  when there is a \<^verbatim>\<open>ctx\<close>, and what \<^verbatim>\<open>ctx.send\<close> or \<^verbatim>\<open>message.edit\<close> raises leaves
  \<^verbatim>\<open>sync\<close>.
\<close>

theorem sync_reports_counts:
  "(RoleSyncer_get_diff api guild (announced ctx ''role'' w) = Some (Inr diff, w2)
      \<and> RoleSyncer_sync iter api diff w2 = (Inr (), w3) \<longrightarrow>
    (\<exists>c u d msg. diff = \<lparr>created = Some c, updated = Some u, deleted = Some d\<rparr>
       \<and> msg = '':ok_hand: Synchronisation of roles complete: created `'' @ str_nat (card c)
                @ ''`, updated `'' @ str_nat (card u)
                @ ''`, deleted `'' @ str_nat (card d) @ ''`''
       \<and> Syncer_sync rs (RoleSyncer iter) api guild ctx w =
           (case send_raises ctx ''role'' w of
              Some x \<Rightarrow> Some (Inl (Unclassified x), w)
            | None \<Rightarrow>
                (case edit_raises ctx w msg w3 of
                   Some x \<Rightarrow> Some (Inl (Unclassified x), w3)
                 | None \<Rightarrow> Some (Inr (), case ctx of None \<Rightarrow> w3
                                         | Some x \<Rightarrow> w3\<lparr>messages := messages w @ [msg]\<rparr>)))))
   \<and> (UserSyncer_get_diff api guild (announced ctx ''user'' w) = Some (Inr udiff, v2)
      \<and> UserSyncer_sync api udiff v2 = (Inr (), v3) \<longrightarrow>
    (\<exists>c u msg. udiff = \<lparr>created = Some c, updated = Some u, deleted = None\<rparr>
       \<and> msg = '':ok_hand: Synchronisation of users complete: created `'' @ str_nat (length c)
                @ ''`, updated `'' @ str_nat (length u) @ ''`''
       \<and> Syncer_sync rs UserSyncer api guild ctx w =
           (case send_raises ctx ''user'' w of
              Some x \<Rightarrow> Some (Inl (Unclassified x), w)
            | None \<Rightarrow>
                (case edit_raises ctx w msg v3 of
                   Some x \<Rightarrow> Some (Inl (Unclassified x), v3)
                 | None \<Rightarrow> Some (Inr (), case ctx of None \<Rightarrow> v3
                                         | Some x \<Rightarrow> v3\<lparr>messages := messages w @ [msg]\<rparr>)))))
   \<and> str_nat (card ({} :: Role set)) = ''0''"
proof (intro conjI impI)
  assume a: "RoleSyncer_get_diff api guild (announced ctx ''role'' w) = Some (Inr diff, w2)
      \<and> RoleSyncer_sync iter api diff w2 = (Inr (), w3)"
  then obtain c u d where diff: "diff = \<lparr>created = Some c, updated = Some u, deleted = Some d\<rparr>"
    using role_get_diff_shape by blast
  let ?msg = "'':ok_hand: Synchronisation of roles complete: created `'' @ str_nat (card c)
                @ ''`, updated `'' @ str_nat (card u)
                @ ''`, deleted `'' @ str_nat (card d) @ ''`''"
  from a have m: "messages w3 = messages (announced ctx ''role'' w)"
    using role_get_diff_messages role_sync_messages by metis
  have "Syncer_sync rs (RoleSyncer iter) api guild ctx w =
           (case send_raises ctx ''role'' w of
              Some x \<Rightarrow> Some (Inl (Unclassified x), w)
            | None \<Rightarrow>
                (case edit_raises ctx w ?msg w3 of
                   Some x \<Rightarrow> Some (Inl (Unclassified x), w3)
                 | None \<Rightarrow> Some (Inr (), case ctx of None \<Rightarrow> w3
                                         | Some x \<Rightarrow> w3\<lparr>messages := messages w @ [?msg]\<rparr>)))"
  proof (cases "send_raises ctx ''role'' w")
    case (Some x)
    then have "Syncer_sync rs (RoleSyncer iter) api guild ctx w = Some (Inl (Unclassified x), w)"
      using sync_send_raised [of ctx "RoleSyncer iter" w x rs api guild] by simp
    then show ?thesis by (simp only: Some option.case)
  next
    case None
    with a diff have run: "Syncer_sync rs (RoleSyncer iter) api guild ctx w =
        Some (finish (sent ctx w) ?msg w3)"
      using sync_written [of ctx "RoleSyncer iter" w api guild diff w2 "()" w3 rs]
      by (simp add: success_content_present)
    show ?thesis
      by (simp only: None option.case run finish_outcome [OF m])
  qed
  with diff show "\<exists>c u d msg. diff = \<lparr>created = Some c, updated = Some u, deleted = Some d\<rparr>
       \<and> msg = '':ok_hand: Synchronisation of roles complete: created `'' @ str_nat (card c)
                @ ''`, updated `'' @ str_nat (card u)
                @ ''`, deleted `'' @ str_nat (card d) @ ''`''
       \<and> Syncer_sync rs (RoleSyncer iter) api guild ctx w =
           (case send_raises ctx ''role'' w of
              Some x \<Rightarrow> Some (Inl (Unclassified x), w)
            | None \<Rightarrow>
                (case edit_raises ctx w msg w3 of
                   Some x \<Rightarrow> Some (Inl (Unclassified x), w3)
                 | None \<Rightarrow> Some (Inr (), case ctx of None \<Rightarrow> w3
                                         | Some x \<Rightarrow> w3\<lparr>messages := messages w @ [msg]\<rparr>)))"
    by blast
next
  assume a: "UserSyncer_get_diff api guild (announced ctx ''user'' w) = Some (Inr udiff, v2)
      \<and> UserSyncer_sync api udiff v2 = (Inr (), v3)"
  then obtain c u where diff: "udiff = \<lparr>created = Some c, updated = Some u, deleted = None\<rparr>"
    using user_get_diff_shape by blast
  let ?msg = "'':ok_hand: Synchronisation of users complete: created `'' @ str_nat (length c)
                @ ''`, updated `'' @ str_nat (length u) @ ''`''"
  from a have m: "messages v3 = messages (announced ctx ''user'' w)"
    using user_get_diff_messages user_sync_messages by metis
  have "Syncer_sync rs UserSyncer api guild ctx w =
           (case send_raises ctx ''user'' w of
              Some x \<Rightarrow> Some (Inl (Unclassified x), w)
            | None \<Rightarrow>
                (case edit_raises ctx w ?msg v3 of
                   Some x \<Rightarrow> Some (Inl (Unclassified x), v3)
                 | None \<Rightarrow> Some (Inr (), case ctx of None \<Rightarrow> v3
                                         | Some x \<Rightarrow> v3\<lparr>messages := messages w @ [?msg]\<rparr>)))"
  proof (cases "send_raises ctx ''user'' w")
    case (Some x)
    then have "Syncer_sync rs UserSyncer api guild ctx w = Some (Inl (Unclassified x), w)"
      using sync_send_raised [of ctx UserSyncer w x rs api guild] by simp
    then show ?thesis by (simp only: Some option.case)
  next
    case None
    with a diff have run: "Syncer_sync rs UserSyncer api guild ctx w =
        Some (finish (sent ctx w) ?msg v3)"
      using sync_written [of ctx UserSyncer w api guild udiff v2 "()" v3 rs]
      by (simp add: success_content_absent)
    show ?thesis
      by (simp only: None option.case run finish_outcome [OF m])
  qed
  with diff show "\<exists>c u msg. udiff = \<lparr>created = Some c, updated = Some u, deleted = None\<rparr>
       \<and> msg = '':ok_hand: Synchronisation of users complete: created `'' @ str_nat (length c)
                @ ''`, updated `'' @ str_nat (length u) @ ''`''
       \<and> Syncer_sync rs UserSyncer api guild ctx w =
           (case send_raises ctx ''user'' w of
              Some x \<Rightarrow> Some (Inl (Unclassified x), w)
            | None \<Rightarrow>
                (case edit_raises ctx w msg v3 of
                   Some x \<Rightarrow> Some (Inl (Unclassified x), v3)
                 | None \<Rightarrow> Some (Inr (), case ctx of None \<Rightarrow> v3
                                         | Some x \<Rightarrow> v3\<lparr>messages := messages w @ [msg]\<rparr>)))"
    by blast
next
  show "str_nat (card ({} :: Role set)) = ''0''"
    by (simp add: str_nat.simps digit_def)
qed

theorem sync_reports_counts_witness:
  "Syncer_sync repr_ascii (RoleSyncer iter_roles) (site None) guild_all (Some reliable) no_calls =
     Some (Inr (),
           \<lparr>calls = [Request GET ''bot/roles'' JNull JNull, post_role role_a, put_role role_b],
              messages = ['':ok_hand: Synchronisation of roles complete: created `1`, updated `1`, deleted `0`'']\<rparr>)
   \<and> Syncer_sync repr_ascii UserSyncer (site None) the_guild (Some reliable) no_calls =
     Some (Inr (),
           \<lparr>calls = [get_page (Some 1), get_page (Some 2), post_users (Some [new_user member_9]),
                      patch_users (Some [[(''name'', JStr ''ada''), (''id'', JInt 1)],
                                         [(''in_guild'', JBool False), (''id'', JInt 2)]])],
              messages = ['':ok_hand: Synchronisation of users complete: created `1`, updated `2`'']\<rparr>)"
proof -
  let ?w3 = "\<lparr>calls = [Request GET ''bot/roles'' JNull JNull, post_role role_a, put_role role_b],
               messages = [start_text ''role'']\<rparr>"
  let ?v3 = "\<lparr>calls = [get_page (Some 1), get_page (Some 2),
                        post_users (Some [new_user member_9]),
                        patch_users (Some [[(''name'', JStr ''ada''), (''id'', JInt 1)],
                                           [(''in_guild'', JBool False), (''id'', JInt 2)]])],
               messages = [start_text ''user'']\<rparr>"
  note inst = sync_reports_counts [where api = "site None" and ctx = "Some reliable"
      and w = no_calls and iter = iter_roles and rs = repr_ascii
      and ?w2.0 = "\<lparr>calls = [Request GET ''bot/roles'' JNull JNull],
                   messages = [start_text ''role'']\<rparr>"
      and ?v2.0 = "\<lparr>calls = [get_page (Some 1), get_page (Some 2)],
                   messages = [start_text ''user'']\<rparr>"
      and ?w3.0 = ?w3 and ?v3.0 = ?v3 and guild = guild_all
      and diff = "\<lparr>created = Some {role_a}, updated = Some {role_b}, deleted = Some {}\<rparr>"]
  note insu = sync_reports_counts [where api = "site None" and ctx = "Some reliable"
      and w = no_calls and rs = repr_ascii
      and ?v2.0 = "\<lparr>calls = [get_page (Some 1), get_page (Some 2)],
                   messages = [start_text ''user'']\<rparr>"
      and ?v3.0 = ?v3 and guild = the_guild
      and udiff = "\<lparr>created = Some [new_user member_9],
                updated = Some [[(''name'', JStr ''ada''), (''id'', JInt 1)],
                                [(''in_guild'', JBool False), (''id'', JInt 2)]],
                deleted = None\<rparr>"]
  have "RoleSyncer_get_diff (site None) guild_all (announced (Some reliable) ''role'' no_calls) =
          Some (Inr \<lparr>created = Some {role_a}, updated = Some {role_b}, deleted = Some {}\<rparr>,
                \<lparr>calls = [Request GET ''bot/roles'' JNull JNull], messages = [start_text ''role'']\<rparr>)
        \<and> RoleSyncer_sync iter_roles (site None)
          \<lparr>created = Some {role_a}, updated = Some {role_b}, deleted = Some {}\<rparr>
          \<lparr>calls = [Request GET ''bot/roles'' JNull JNull], messages = [start_text ''role'']\<rparr>
          = (Inr (), ?w3)"
    by (simp add: diff_all writes_all)
  from inst [THEN conjunct1, THEN mp, OF this]
  have role: "Syncer_sync repr_ascii (RoleSyncer iter_roles) (site None) guild_all (Some reliable)
       no_calls =
     Some (Inr (),
           \<lparr>calls = [Request GET ''bot/roles'' JNull JNull, post_role role_a, put_role role_b],
              messages = ['':ok_hand: Synchronisation of roles complete: created `1`, updated `1`, deleted `0`'']\<rparr>)"
    by (auto simp: no_calls_def str_nat.simps digit_def)
  have "UserSyncer_get_diff (site None) the_guild (announced (Some reliable) ''user'' no_calls) =
          Some (Inr \<lparr>created = Some [new_user member_9],
                updated = Some [[(''name'', JStr ''ada''), (''id'', JInt 1)],
                                [(''in_guild'', JBool False), (''id'', JInt 2)]],
                deleted = None\<rparr>,
                \<lparr>calls = [get_page (Some 1), get_page (Some 2)], messages = [start_text ''user'']\<rparr>)
        \<and> UserSyncer_sync (site None)
          \<lparr>created = Some [new_user member_9],
                updated = Some [[(''name'', JStr ''ada''), (''id'', JInt 1)],
                                [(''in_guild'', JBool False), (''id'', JInt 2)]],
                deleted = None\<rparr>
          \<lparr>calls = [get_page (Some 1), get_page (Some 2)], messages = [start_text ''user'']\<rparr>
          = (Inr (), ?v3)"
    by (simp add: users_diff_site users_written)
  from insu [THEN conjunct2, THEN conjunct1, THEN mp, OF this]
  have user: "Syncer_sync repr_ascii UserSyncer (site None) the_guild (Some reliable) no_calls =
     Some (Inr (),
           \<lparr>calls = [get_page (Some 1), get_page (Some 2), post_users (Some [new_user member_9]),
                      patch_users (Some [[(''name'', JStr ''ada''), (''id'', JInt 1)],
                                         [(''in_guild'', JBool False), (''id'', JInt 2)]])],
              messages = ['':ok_hand: Synchronisation of users complete: created `1`, updated `2`'']\<rparr>)"
    by (auto simp: no_calls_def str_nat.simps digit_def)
  from role user show ?thesis by blast
qed

section \<open>The message of a run whose write fails\<close>

text \<open>
  C7, amended. Take any request that \<^verbatim>\<open>_sync\<close> has sent, of the roles or of the users,
  at which the site raised a \<^verbatim>\<open>ResponseCodeError\<close>. This request is the last one of the
  run: no request follows it, in \<^verbatim>\<open>_sync\<close> or in \<^verbatim>\<open>sync\<close>. The run composes the failure
  text with the status and, in the code block, the body when the body is true for Python
  (present and not empty, not zero, not false), and the pointer to the log otherwise.
  With a \<^verbatim>\<open>ctx\<close> whose \<^verbatim>\<open>message.edit\<close> does not raise, the message of the run becomes
  this text and \<^verbatim>\<open>sync\<close> returns; what \<^verbatim>\<open>message.edit\<close> raises leaves \<^verbatim>\<open>sync\<close>.
\<close>

theorem write_failure_reported:
  "(send_raises ctx ''role'' w = None
      \<and> RoleSyncer_get_diff api guild (announced ctx ''role'' w) = Some (Inr diff, w2)
      \<and> RoleSyncer_sync iter api diff w2 = (r, w3)
      \<and> length (calls w2) \<le> i \<and> i < length (calls w3)
      \<and> api (take i (calls w3)) (calls w3 ! i) = Inl (ResponseCodeError st js) \<longrightarrow>
    (\<exists>msg. msg = '':x: Synchronisation of roles failed: status '' @ str_int st @ [CHR 0x0A]
                  @ ''```'' @ (if truthy js then str rs js else ''See log output for details'')
                  @ ''```''
       \<and> Suc i = length (calls w3)
       \<and> Syncer_sync rs (RoleSyncer iter) api guild ctx w =
           (case edit_raises ctx w msg w3 of
              Some x \<Rightarrow> Some (Inl (Unclassified x), w3)
            | None \<Rightarrow> Some (Inr (), case ctx of None \<Rightarrow> w3
                                    | Some x \<Rightarrow> w3\<lparr>messages := messages w @ [msg]\<rparr>))))
   \<and> (send_raises ctx ''user'' w = None
      \<and> UserSyncer_get_diff api guild (announced ctx ''user'' w) = Some (Inr udiff, v2)
      \<and> UserSyncer_sync api udiff v2 = (q, v3)
      \<and> length (calls v2) \<le> j \<and> j < length (calls v3)
      \<and> api (take j (calls v3)) (calls v3 ! j) = Inl (ResponseCodeError st js) \<longrightarrow>
    (\<exists>msg. msg = '':x: Synchronisation of users failed: status '' @ str_int st @ [CHR 0x0A]
                  @ ''```'' @ (if truthy js then str rs js else ''See log output for details'')
                  @ ''```''
       \<and> Suc j = length (calls v3)
       \<and> Syncer_sync rs UserSyncer api guild ctx w =
           (case edit_raises ctx w msg v3 of
              Some x \<Rightarrow> Some (Inl (Unclassified x), v3)
            | None \<Rightarrow> Some (Inr (), case ctx of None \<Rightarrow> v3
                                    | Some x \<Rightarrow> v3\<lparr>messages := messages w @ [msg]\<rparr>))))"
proof (intro conjI impI)
  assume a: "send_raises ctx ''role'' w = None
      \<and> RoleSyncer_get_diff api guild (announced ctx ''role'' w) = Some (Inr diff, w2)
      \<and> RoleSyncer_sync iter api diff w2 = (r, w3)
      \<and> length (calls w2) \<le> i \<and> i < length (calls w3)
      \<and> api (take i (calls w3)) (calls w3 ! i) = Inl (ResponseCodeError st js)"
  let ?msg = "'':x: Synchronisation of roles failed: status '' @ str_int st @ [CHR 0x0A]
                  @ ''```'' @ (if truthy js then str rs js else ''See log output for details'')
                  @ ''```''"
  from a stops_role_sync [of api w2 iter diff] have "stops api w2 (r, w3)" by simp
  from stops_last [OF this] a
  have last: "Suc i = length (calls w3)" and r: "r = Inl (ResponseCodeError st js)" by auto
  from a have m: "messages w3 = messages (announced ctx ''role'' w)"
    using role_get_diff_messages role_sync_messages by metis
  from a r have "Syncer_sync rs (RoleSyncer iter) api guild ctx w =
        Some (finish (sent ctx w) (failure_content rs ''role'' st js) w3)"
    using sync_write_failed [of ctx "RoleSyncer iter" w api guild diff w2 st js w3 rs] by simp
  then have "Syncer_sync rs (RoleSyncer iter) api guild ctx w =
        Some (finish (sent ctx w) ?msg w3)"
    by (simp add: failure_content_text)
  then have "Syncer_sync rs (RoleSyncer iter) api guild ctx w =
           (case edit_raises ctx w ?msg w3 of
              Some x \<Rightarrow> Some (Inl (Unclassified x), w3)
            | None \<Rightarrow> Some (Inr (), case ctx of None \<Rightarrow> w3
                                    | Some x \<Rightarrow> w3\<lparr>messages := messages w @ [?msg]\<rparr>))"
    by (simp only: finish_outcome [OF m])
  with last show "\<exists>msg. msg = '':x: Synchronisation of roles failed: status '' @ str_int st @ [CHR 0x0A]
                  @ ''```'' @ (if truthy js then str rs js else ''See log output for details'')
                  @ ''```''
       \<and> Suc i = length (calls w3)
       \<and> Syncer_sync rs (RoleSyncer iter) api guild ctx w =
           (case edit_raises ctx w msg w3 of
              Some x \<Rightarrow> Some (Inl (Unclassified x), w3)
            | None \<Rightarrow> Some (Inr (), case ctx of None \<Rightarrow> w3
                                    | Some x \<Rightarrow> w3\<lparr>messages := messages w @ [msg]\<rparr>))"
    by blast
next
  assume a: "send_raises ctx ''user'' w = None
      \<and> UserSyncer_get_diff api guild (announced ctx ''user'' w) = Some (Inr udiff, v2)
      \<and> UserSyncer_sync api udiff v2 = (q, v3)
      \<and> length (calls v2) \<le> j \<and> j < length (calls v3)
      \<and> api (take j (calls v3)) (calls v3 ! j) = Inl (ResponseCodeError st js)"
  let ?msg = "'':x: Synchronisation of users failed: status '' @ str_int st @ [CHR 0x0A]
                  @ ''```'' @ (if truthy js then str rs js else ''See log output for details'')
                  @ ''```''"
  from a stops_user_sync [of api v2 udiff] have "stops api v2 (q, v3)" by simp
  from stops_last [OF this] a
  have last: "Suc j = length (calls v3)" and q: "q = Inl (ResponseCodeError st js)" by auto
  from a have m: "messages v3 = messages (announced ctx ''user'' w)"
    using user_get_diff_messages user_sync_messages by metis
  from a q have "Syncer_sync rs UserSyncer api guild ctx w =
        Some (finish (sent ctx w) (failure_content rs ''user'' st js) v3)"
    using sync_write_failed [of ctx UserSyncer w api guild udiff v2 st js v3 rs] by simp
  then have "Syncer_sync rs UserSyncer api guild ctx w =
        Some (finish (sent ctx w) ?msg v3)"
    by (simp add: failure_content_text)
  then have "Syncer_sync rs UserSyncer api guild ctx w =
           (case edit_raises ctx w ?msg v3 of
              Some x \<Rightarrow> Some (Inl (Unclassified x), v3)
            | None \<Rightarrow> Some (Inr (), case ctx of None \<Rightarrow> v3
                                    | Some x \<Rightarrow> v3\<lparr>messages := messages w @ [?msg]\<rparr>))"
    by (simp only: finish_outcome [OF m])
  with last show "\<exists>msg. msg = '':x: Synchronisation of users failed: status '' @ str_int st @ [CHR 0x0A]
                  @ ''```'' @ (if truthy js then str rs js else ''See log output for details'')
                  @ ''```''
       \<and> Suc j = length (calls v3)
       \<and> Syncer_sync rs UserSyncer api guild ctx w =
           (case edit_raises ctx w msg v3 of
              Some x \<Rightarrow> Some (Inl (Unclassified x), v3)
            | None \<Rightarrow> Some (Inr (), case ctx of None \<Rightarrow> v3
                                    | Some x \<Rightarrow> v3\<lparr>messages := messages w @ [msg]\<rparr>))"
    by blast
qed


theorem write_failure_reported_witness:
  "site (Some (ResponseCodeError 500 (JDict [(''detail'', JStr ''x'')])))
         [Request GET ''bot/roles'' JNull JNull] (post_role role_a) =
       Inl (ResponseCodeError 500 (JDict [(''detail'', JStr ''x'')]))
   \<and> Syncer_sync repr_ascii (RoleSyncer iter_roles)
     (site (Some (ResponseCodeError 500 (JDict [(''detail'', JStr ''x'')]))))
     the_guild (Some reliable) no_calls =
     Some (Inr (),
           \<lparr>calls = [Request GET ''bot/roles'' JNull JNull, post_role role_a],
              messages = ['':x: Synchronisation of roles failed: status 500'' @ [CHR 0x0A]
                          @ ''```{'' @ [CHR 0x27] @ ''detail'' @ [CHR 0x27] @ '': ''
                          @ [CHR 0x27] @ ''x'' @ [CHR 0x27] @ ''}```'']\<rparr>)
   \<and> site (Some (ResponseCodeError 500 (JDict [(''detail'', JStr ''x'')])))
         [get_page (Some 1), get_page (Some 2)] (post_users (Some [new_user member_9])) =
       Inl (ResponseCodeError 500 (JDict [(''detail'', JStr ''x'')]))
   \<and> Syncer_sync repr_ascii UserSyncer
     (site (Some (ResponseCodeError 500 (JDict [(''detail'', JStr ''x'')]))))
     the_guild (Some reliable) no_calls =
     Some (Inr (),
           \<lparr>calls = [get_page (Some 1), get_page (Some 2), post_users (Some [new_user member_9])],
              messages = ['':x: Synchronisation of users failed: status 500'' @ [CHR 0x0A]
                          @ ''```{'' @ [CHR 0x27] @ ''detail'' @ [CHR 0x27] @ '': ''
                          @ [CHR 0x27] @ ''x'' @ [CHR 0x27] @ ''}```'']\<rparr>)"
proof -
  let ?e = "ResponseCodeError 500 (JDict [(''detail'', JStr ''x'')])"
  let ?d = "\<lparr>created = Some {role_a}, updated = Some {role_b}, deleted = Some {role_c}\<rparr>"
  let ?w2 = "\<lparr>calls = [Request GET ''bot/roles'' JNull JNull], messages = [start_text ''role'']\<rparr>"
  let ?w3 = "\<lparr>calls = [Request GET ''bot/roles'' JNull JNull, post_role role_a],
               messages = [start_text ''role'']\<rparr>"
  let ?u = "\<lparr>created = Some [new_user member_9],
             updated = Some [[(''name'', JStr ''ada''), (''id'', JInt 1)],
                             [(''in_guild'', JBool False), (''id'', JInt 2)]],
             deleted = None\<rparr>"
  let ?v2 = "\<lparr>calls = [get_page (Some 1), get_page (Some 2)], messages = [start_text ''user'']\<rparr>"
  let ?v3 = "\<lparr>calls = [get_page (Some 1), get_page (Some 2),
                        post_users (Some [new_user member_9])],
               messages = [start_text ''user'']\<rparr>"
  have raised_r: "site (Some ?e) [Request GET ''bot/roles'' JNull JNull] (post_role role_a) = Inl ?e"
    by (simp add: site_def post_role_def get_page_def)
  have raised_u: "site (Some ?e) [get_page (Some 1), get_page (Some 2)]
      (post_users (Some [new_user member_9])) = Inl ?e"
    by (simp add: site_def post_users_def get_page_def)
  note inst = write_failure_reported [where api = "site (Some ?e)" and guild = the_guild
      and ctx = "Some reliable" and w = no_calls and iter = iter_roles and st = 500
      and js = "JDict [(''detail'', JStr ''x'')]" and rs = repr_ascii
      and diff = ?d and ?w2.0 = ?w2 and ?w3.0 = ?w3 and r = "Inl ?e" and i = 1
      and udiff = ?u and ?v2.0 = ?v2 and ?v3.0 = ?v3 and q = "Inl ?e" and j = 2]
  have "send_raises (Some reliable) ''role'' no_calls = None
      \<and> RoleSyncer_get_diff (site (Some ?e)) the_guild (announced (Some reliable) ''role'' no_calls)
          = Some (Inr ?d, ?w2)
      \<and> RoleSyncer_sync iter_roles (site (Some ?e)) ?d ?w2 = (Inl ?e, ?w3)
      \<and> length (calls ?w2) \<le> 1 \<and> 1 < length (calls ?w3)
      \<and> site (Some ?e) (take 1 (calls ?w3)) (calls ?w3 ! 1) = Inl ?e"
    by (simp add: diff_guild writes_fail raised_r)
  from inst [THEN conjunct1, THEN mp, OF this]
  have role: "Syncer_sync repr_ascii (RoleSyncer iter_roles) (site (Some ?e)) the_guild
       (Some reliable) no_calls =
     Some (Inr (),
           \<lparr>calls = [Request GET ''bot/roles'' JNull JNull, post_role role_a],
              messages = ['':x: Synchronisation of roles failed: status 500'' @ [CHR 0x0A]
                          @ ''```{'' @ [CHR 0x27] @ ''detail'' @ [CHR 0x27] @ '': ''
                          @ [CHR 0x27] @ ''x'' @ [CHR 0x27] @ ''}```'']\<rparr>)"
    by (auto simp: no_calls_def str_500 str_detail simp del: str.simps repr.simps)
  have "send_raises (Some reliable) ''user'' no_calls = None
      \<and> UserSyncer_get_diff (site (Some ?e)) the_guild (announced (Some reliable) ''user'' no_calls)
          = Some (Inr ?u, ?v2)
      \<and> UserSyncer_sync (site (Some ?e)) ?u ?v2 = (Inl ?e, ?v3)
      \<and> length (calls ?v2) \<le> 2 \<and> 2 < length (calls ?v3)
      \<and> site (Some ?e) (take 2 (calls ?v3)) (calls ?v3 ! 2) = Inl ?e"
    by (simp add: users_diff_site users_write_fail raised_u)
  from inst [THEN conjunct2, THEN mp, OF this]
  have user: "Syncer_sync repr_ascii UserSyncer (site (Some ?e)) the_guild
       (Some reliable) no_calls =
     Some (Inr (),
           \<lparr>calls = [get_page (Some 1), get_page (Some 2), post_users (Some [new_user member_9])],
              messages = ['':x: Synchronisation of users failed: status 500'' @ [CHR 0x0A]
                          @ ''```{'' @ [CHR 0x27] @ ''detail'' @ [CHR 0x27] @ '': ''
                          @ [CHR 0x27] @ ''x'' @ [CHR 0x27] @ ''}```'']\<rparr>)"
    by (auto simp: no_calls_def str_500 str_detail simp del: str.simps repr.simps)
  show ?thesis
    by (intro conjI raised_r role raised_u user)
qed


text \<open>
  The claim as the specification states it has the pointer to the log only for an absent
  body. The bodies \<^verbatim>\<open>{}\<close> and \<^verbatim>\<open>false\<close> are present, their texts are \<^verbatim>\<open>{}\<close> and
  \<^verbatim>\<open>False\<close>, and the messages have the pointer, no brace and no \<^verbatim>\<open>F\<close>.
\<close>

theorem write_failure_counterexample:
  "Syncer_sync repr_ascii (RoleSyncer iter_roles) (site (Some (ResponseCodeError 500 (JDict []))))
     the_guild (Some reliable) no_calls =
     Some (Inr (),
           \<lparr>calls = [Request GET ''bot/roles'' JNull JNull, post_role role_a],
              messages = ['':x: Synchronisation of roles failed: status 500'' @ [CHR 0x0A]
                          @ ''```See log output for details```'']\<rparr>)
   \<and> JDict [] \<noteq> JNull
   \<and> str repr_ascii (JDict []) = ''{}''
   \<and> CHR ''{'' \<notin> set ('':x: Synchronisation of roles failed: status 500'' @ [CHR 0x0A]
                          @ ''```See log output for details```'')
   \<and> Syncer_sync repr_ascii (RoleSyncer iter_roles)
       (site (Some (ResponseCodeError 500 (JBool False))))
       the_guild (Some reliable) no_calls =
     Some (Inr (),
           \<lparr>calls = [Request GET ''bot/roles'' JNull JNull, post_role role_a],
              messages = ['':x: Synchronisation of roles failed: status 500'' @ [CHR 0x0A]
                          @ ''```See log output for details```'']\<rparr>)
   \<and> JBool False \<noteq> JNull
   \<and> str repr_ascii (JBool False) = ''False''
   \<and> CHR ''F'' \<notin> set ('':x: Synchronisation of roles failed: status 500'' @ [CHR 0x0A]
                          @ ''```See log output for details```'')"
  by (simp add: failed_run failure_content_text str_500)


section \<open>The exceptions that leave \<^verbatim>\<open>sync\<close>\<close>




end
